theory Spec2Isabelle
  imports Complex_Main "HOL-Library.Log_Nat" "HOL-Library.Sublist"
begin

section \<open>Python arithmetic used by the generators\<close>

text \<open>
  The scripts compute gauge geometry with Python's \<^verbatim>\<open>/\<close> (true division of two
  \<^verbatim>\<open>int\<close>s, giving a \<^verbatim>\<open>float\<close>), float multiplication and addition, float
  literals, comparisons and \<^verbatim>\<open>int(...)\<close>. A finite binary64 value is modelled by the
  rational number it denotes. Every operation computes the exact rational result and
  rounds it to the nearest binary64 value, ties to even (\<open>fl\<close>): 53 significant bits,
  least exponent \<open>-1074\<close>. The exponent is unbounded above in \<open>fl\<close>; where Python checks
  the range (\<^verbatim>\<open>int / int\<close> raises \<^verbatim>\<open>OverflowError\<close>) the check is written in the
  operation. Infinities and NaN are not modelled: every product and sum in the scripts
  has operands bounded by small constants.
\<close>

text \<open>The exceptions that occur. \<^verbatim>\<open>ZeroDivisionError\<close> and \<^verbatim>\<open>OverflowError\<close> are
  the two that \<^verbatim>\<open>int / int\<close> raises; the others come from the imaging library, the
  file system, the console or the user, and carry the message that \<^verbatim>\<open>str(e)\<close>
  returns.\<close>

datatype py_exception =
    ZeroDivisionError
  | OverflowError
  | OSError string
  | ImportError string
  | UnicodeEncodeError string
  | KeyboardInterrupt

definition round_half_even :: "rat \<Rightarrow> int" where
  "round_half_even x =
     (let f = \<lfloor>x\<rfloor>; d = x - of_int f
      in if d < 1 / 2 then f else if 1 / 2 < d then f + 1 else if even f then f else f + 1)"

text \<open>\<open>ilog2 x\<close> is \<open>\<lfloor>log\<^sub>2 x\<rfloor>\<close> for a positive rational, from the bit lengths of its
  numerator and denominator.\<close>

definition ilog2 :: "rat \<Rightarrow> int" where
  "ilog2 x = (case quotient_of x of (p, q) \<Rightarrow>
     let k = bitlen p - bitlen q in if 2 powi k \<le> x then k else k - 1)"

definition fl :: "rat \<Rightarrow> rat" where
  "fl x = (if x = 0 then 0
           else let q = max (ilog2 \<bar>x\<bar> - 52) (- 1074)
                in of_int (round_half_even (x / 2 powi q)) * 2 powi q)"

text \<open>\<^verbatim>\<open>a / b\<close> on two ints: \<^verbatim>\<open>ZeroDivisionError\<close> for \<^verbatim>\<open>b == 0\<close>, the correctly
  rounded quotient otherwise, \<^verbatim>\<open>OverflowError\<close> when that is not a finite float.\<close>

definition py_truediv :: "int \<Rightarrow> int \<Rightarrow> py_exception + rat" where
  "py_truediv a b =
     (if b = 0 then Inl ZeroDivisionError
      else let r = fl (of_int a / of_int b)
           in if 2 ^ 1024 \<le> \<bar>r\<bar> then Inl OverflowError else Inr r)"

text \<open>A float literal such as \<^verbatim>\<open>0.3\<close> is the float nearest to the decimal.\<close>

definition float_lit :: "rat \<Rightarrow> rat" where
  "float_lit x = fl x"

text \<open>An int operand of a float operation is converted first; the ints that occur (the
  constants 135, 175, 200, 210, 255 and a brightness value) are far below the overflow
  range.\<close>

definition float_of_int :: "int \<Rightarrow> rat" where
  "float_of_int n = fl (of_int n)"

definition fmul :: "rat \<Rightarrow> rat \<Rightarrow> rat" where
  "fmul x y = fl (x * y)"

definition fadd :: "rat \<Rightarrow> rat \<Rightarrow> rat" where
  "fadd x y = fl (x + y)"

text \<open>\<^verbatim>\<open>int(x)\<close> on a finite float truncates toward zero.\<close>

definition py_int :: "rat \<Rightarrow> int" where
  "py_int x = (if 0 \<le> x then \<lfloor>x\<rfloor> else \<lceil>x\<rceil>)"

section \<open>Colours and helper functions of \<^verbatim>\<open>real2.py\<close>\<close>

text \<open>A colour is a Python tuple of ints, modelled as a list.\<close>

type_synonym colour = "int list"

definition BG :: colour where "BG = [0, 0, 0]"
definition BLACK :: colour where "BLACK = [0, 0, 0]"
definition WHITE :: colour where "WHITE = [255, 255, 255]"
definition GREEN :: colour where "GREEN = [0, 220, 120]"
definition YELLOW :: colour where "YELLOW = [255, 200, 0]"
definition ORANGE :: colour where "ORANGE = [255, 140, 0]"
definition RED :: colour where "RED = [220, 50, 50]"
definition GRAY :: colour where "GRAY = [120, 120, 120]"
definition BLUE :: colour where "BLUE = [0, 150, 255]"
definition CYAN :: colour where "CYAN = [0, 200, 200]"

definition get_temp_color :: "int \<Rightarrow> int \<Rightarrow> py_exception + colour" where
  "get_temp_color temp max_temp =
     (case py_truediv temp max_temp of
        Inl e \<Rightarrow> Inl e
      | Inr ratio \<Rightarrow>
          Inr (if ratio < float_lit (1 / 2) then GREEN
               else if ratio < float_lit (3 / 4) then YELLOW
               else RED))"

section \<open>Strings and formatting\<close>

text \<open>\<^verbatim>\<open>str(n)\<close> for an int, and the format specification \<^verbatim>\<open>{n:0w}\<close>: decimal digits,
  padded with zeros to width \<open>w\<close>, the sign (if any) before the padding.\<close>

definition digit_chars :: string where
  "digit_chars = ''0123456789''"

fun str_nat :: "nat \<Rightarrow> string" where
  "str_nat n = (if n < 10 then [digit_chars ! n]
                else str_nat (n div 10) @ [digit_chars ! (n mod 10)])"

declare str_nat.simps [simp del]

definition str :: "int \<Rightarrow> string" where
  "str i = (if i < 0 then CHR ''-'' # str_nat (nat (- i)) else str_nat (nat i))"

definition zfill :: "nat \<Rightarrow> string \<Rightarrow> string" where
  "zfill w s = replicate (w - length s) CHR ''0'' @ s"

definition format_0w :: "nat \<Rightarrow> int \<Rightarrow> string" where
  "format_0w w i = (if i < 0 then CHR ''-'' # zfill (w - 1) (str_nat (nat (- i)))
                    else zfill w (str_nat (nat i)))"

section \<open>Exceptions, images and the outside world\<close>

text \<open>A pure computation that may raise is a value of \<open>py_exception + 'a\<close>.\<close>

definition bindE ::
    "py_exception + 'a \<Rightarrow> ('a \<Rightarrow> py_exception + 'b) \<Rightarrow> py_exception + 'b" where
  "bindE m f = (case m of Inl e \<Rightarrow> Inl e | Inr x \<Rightarrow> f x)"

fun mapE :: "('a \<Rightarrow> py_exception + 'b) \<Rightarrow> 'a list \<Rightarrow> py_exception + 'b list" where
  "mapE f [] = Inr []"
| "mapE f (x # xs) = bindE (f x) (\<lambda>y. bindE (mapE f xs) (\<lambda>ys. Inr (y # ys)))"

text \<open>\<^verbatim>\<open>isinstance(e, Exception)\<close>: of the exceptions modelled, only
  \<^verbatim>\<open>KeyboardInterrupt\<close> derives from \<^verbatim>\<open>BaseException\<close> directly. \<^verbatim>\<open>IOError\<close> is an
  alias of \<^verbatim>\<open>OSError\<close>, and \<open>OSError m\<close> stands for every instance of it
  (\<^verbatim>\<open>FileNotFoundError\<close>, \<^verbatim>\<open>PermissionError\<close>, ...).\<close>

definition is_Exception :: "py_exception \<Rightarrow> bool" where
  "is_Exception e = (e \<noteq> KeyboardInterrupt)"

definition is_OSError :: "py_exception \<Rightarrow> bool" where
  "is_OSError e = (case e of OSError m \<Rightarrow> True | _ \<Rightarrow> False)"

text \<open>\<^verbatim>\<open>str(e)\<close>, as the handlers of \<^verbatim>\<open>try.py\<close> format an exception into their
  message. The two arithmetic exceptions have the messages of \<^verbatim>\<open>int / int\<close>; a
  \<^verbatim>\<open>KeyboardInterrupt\<close> raised by the interpreter has no arguments.\<close>

definition exception_str :: "py_exception \<Rightarrow> string" where
  "exception_str e =
     (case e of
        ZeroDivisionError \<Rightarrow> ''division by zero''
      | OverflowError \<Rightarrow> ''integer division result too large for a float''
      | OSError m \<Rightarrow> m
      | ImportError m \<Rightarrow> m
      | UnicodeEncodeError m \<Rightarrow> m
      | KeyboardInterrupt \<Rightarrow> [])"

datatype font = TrueType string int | DefaultFont

type_synonym box = "int \<times> int \<times> int \<times> int"
type_synonym point = "int \<times> int"

text \<open>The drawing calls of \<^verbatim>\<open>ImageDraw\<close>, with their \<^verbatim>\<open>fill\<close>, \<^verbatim>\<open>outline\<close> and
  \<^verbatim>\<open>width\<close> arguments (the library's default width where the call gives none).
  \<open>RadialLine a r1 r2\<close> is a gauge marker: the line between the points at radius
  \<open>r1\<close> and \<open>r2\<close> from the centre \<open>(100, 100)\<close> in direction \<open>a\<close> degrees; the
  scripts obtain its end points through \<^verbatim>\<open>math.radians\<close>, \<^verbatim>\<open>math.cos\<close> and
  \<^verbatim>\<open>math.sin\<close>, which are not evaluated here.\<close>

datatype draw_op =
    Ellipse box "colour option" "colour option" int
  | Arc box int int colour int
  | RadialLine rat int int colour int
  | Line "point list" colour int
  | Rectangle box "colour option" "colour option" int
  | RoundedRectangle box int "colour option" "colour option" int
  | Polygon "point list" "colour option" "colour option" int
  | Text point string colour font

record Image =
  img_mode :: string
  img_size :: "int \<times> int"
  img_color :: colour
  img_ops :: "draw_op list"

definition Image_new :: "string \<Rightarrow> int \<times> int \<Rightarrow> colour \<Rightarrow> Image" where
  "Image_new m sz c = \<lparr>img_mode = m, img_size = sz, img_color = c, img_ops = []\<rparr>"

definition draws :: "Image \<Rightarrow> draw_op list \<Rightarrow> Image" where
  "draws im ds = im\<lparr>img_ops := img_ops im @ ds\<rparr>"

definition box_width :: "box \<Rightarrow> int" where
  "box_width b = (case b of (x0, y0, x1, y1) \<Rightarrow> x1 - x0)"

text \<open>What a run can depend on. The scripts read neither \<open>argv\<close> nor \<open>environ\<close>.
  The font files on the machine decide what \<^verbatim>\<open>ImageFont.truetype\<close> returns or raises
  and how wide a text is (\<^verbatim>\<open>textbbox\<close>). The file system decides whether a \<^verbatim>\<open>save\<close>
  or the creation of a directory raises (\<open>save_raises\<close>, \<open>mkdir_raises\<close>: \<open>None\<close> when
  the call succeeds), and together with the working directory what
  \<^verbatim>\<open>Path.absolute()\<close> returns or raises (\<open>absolute\<close>). The console decides whether a
  text can be written to standard output: \<open>encode_error en s\<close> is the message of the
  \<^verbatim>\<open>UnicodeEncodeError\<close> that writing \<open>s\<close> raises, \<open>None\<close> when the encoding of
  standard output has all characters of \<open>s\<close>.\<close>

record env =
  argv :: "string list"
  environ :: "(string \<times> string) list"
  truetype :: "string \<Rightarrow> int \<Rightarrow> py_exception + font"
  textbbox :: "font \<Rightarrow> string \<Rightarrow> box"
  save_raises :: "string \<Rightarrow> py_exception option"
  mkdir_raises :: "string \<Rightarrow> py_exception option"
  absolute :: "string \<Rightarrow> py_exception + string"
  encode_error :: "string \<Rightarrow> string option"

record world =
  dirs :: "string list"
  files :: "(string \<times> Image) list"
  stdout :: "string list"
  stderr :: "string list"

text \<open>A statement sequence is a function from the world to an exception or a value,
  and the world it leaves behind.\<close>

type_synonym 'a prog = "world \<Rightarrow> (py_exception + 'a) \<times> world"

definition returnP :: "'a \<Rightarrow> 'a prog" where
  "returnP x w = (Inr x, w)"

definition raiseP :: "py_exception \<Rightarrow> 'a prog" where
  "raiseP e w = (Inl e, w)"

definition bindP :: "'a prog \<Rightarrow> ('a \<Rightarrow> 'b prog) \<Rightarrow> 'b prog" where
  "bindP m f w = (case m w of (Inl e, w') \<Rightarrow> (Inl e, w') | (Inr x, w') \<Rightarrow> f x w')"

definition liftE :: "py_exception + 'a \<Rightarrow> 'a prog" where
  "liftE r w = (r, w)"

fun seqP :: "unit prog list \<Rightarrow> unit prog" where
  "seqP [] = returnP ()"
| "seqP (m # ms) = bindP m (\<lambda>_. seqP ms)"

definition for_each :: "'a list \<Rightarrow> ('a \<Rightarrow> unit prog) \<Rightarrow> unit prog" where
  "for_each xs body = seqP (map body xs)"

text \<open>\<^verbatim>\<open>try: m except ...: h\<close>, where the handler re-raises what its clauses do not
  match.\<close>

definition try_except :: "'a prog \<Rightarrow> (py_exception \<Rightarrow> 'a prog) \<Rightarrow> 'a prog" where
  "try_except m h w = (case m w of (Inl e, w') \<Rightarrow> h e w' | (Inr x, w') \<Rightarrow> (Inr x, w'))"

text \<open>\<^verbatim>\<open>os.makedirs(p, exist_ok=True)\<close> and \<^verbatim>\<open>Path.mkdir(parents=True, exist_ok=True)\<close>:
  they raise what the file system makes them raise, for instance \<^verbatim>\<open>OSError\<close> when
  \<open>p\<close> or one of its parents is a regular file or cannot be written.\<close>

definition makedirs :: "env \<Rightarrow> string \<Rightarrow> unit prog" where
  "makedirs en p w =
     (case mkdir_raises en p of
        None \<Rightarrow> (Inr (), w\<lparr>dirs := dirs w @ [p]\<rparr>)
      | Some e \<Rightarrow> (Inl e, w))"

text \<open>A string is the sequence of bytes of its UTF-8 encoding, so a character outside
  ASCII is a run of bytes with the top bit set. \<^verbatim>\<open>print(s)\<close> encodes \<open>s\<close> for standard
  output before it writes anything: a text with a character that the encoding of
  standard output lacks raises \<^verbatim>\<open>UnicodeEncodeError\<close> and nothing is written. Standard
  output is taken to be open and writable, with an encoding that has ASCII, so ASCII
  text is always written. Standard error replaces what it cannot encode by an escape
  (its error handler is \<^verbatim>\<open>backslashreplace\<close>) and does not raise.\<close>

definition is_ascii :: "string \<Rightarrow> bool" where
  "is_ascii s = list_all (\<lambda>c. \<not> digit7 c) s"

definition py_print :: "env \<Rightarrow> string \<Rightarrow> unit prog" where
  "py_print en s w =
     (case (if is_ascii s then None else encode_error en s) of
        None \<Rightarrow> (Inr (), w\<lparr>stdout := stdout w @ [s]\<rparr>)
      | Some m \<Rightarrow> (Inl (UnicodeEncodeError m), w))"

definition print_stderr :: "string \<Rightarrow> unit prog" where
  "print_stderr s w = (Inr (), w\<lparr>stderr := stderr w @ [s]\<rparr>)"

definition save :: "env \<Rightarrow> Image \<Rightarrow> string \<Rightarrow> unit prog" where
  "save en im p w =
     (case save_raises en p of
        Some e \<Rightarrow> (Inl e, w)
      | None \<Rightarrow> (Inr (), w\<lparr>files := files w @ [(p, im)]\<rparr>))"

section \<open>The main generator \<^verbatim>\<open>real2.py\<close>\<close>

definition WIDTH :: int where "WIDTH = 200"
definition HEIGHT :: int where "HEIGHT = 200"
definition BASE_DIR :: string where "BASE_DIR = ''dgus_assets''"
definition SPEED_MAX :: int where "SPEED_MAX = 80"

definition folders :: "string list" where
  "folders = [''speed'', ''rpm'', ''temp_motor'', ''temp_controller'', ''temp_battery'',
              ''soc'', ''battery_vi'', ''motor_vi'', ''charging'', ''indicators'', ''warnings'']"

record fonts =
  font_big :: font
  font_med :: font
  font_small :: font

text \<open>The font block: three \<^verbatim>\<open>truetype\<close> calls under a bare \<^verbatim>\<open>except:\<close>, which
  catches whatever is raised and sets all three handles to \<^verbatim>\<open>load_default()\<close>.\<close>

definition load_fonts :: "env \<Rightarrow> fonts" where
  "load_fonts en =
     (case bindE (truetype en ''DejaVuSans-Bold.ttf'' 48) (\<lambda>b.
           bindE (truetype en ''DejaVuSans-Bold.ttf'' 36) (\<lambda>m.
           bindE (truetype en ''DejaVuSans-Bold.ttf'' 24) (\<lambda>s.
           Inr \<lparr>font_big = b, font_med = m, font_small = s\<rparr>))) of
        Inr fs \<Rightarrow> fs
      | Inl e \<Rightarrow> \<lparr>font_big = DefaultFont, font_med = DefaultFont, font_small = DefaultFont\<rparr>)"

definition draw_arc_gauge :: "box \<Rightarrow> int \<Rightarrow> int \<Rightarrow> colour \<Rightarrow> int \<Rightarrow> draw_op" where
  "draw_arc_gauge bounds start_angle end_angle color width =
     Arc bounds start_angle end_angle color width"

text \<open>One gauge marker: \<^verbatim>\<open>marker_angle = 135 + (270 * marker / denom)\<close>.\<close>

definition marker_line :: "int \<Rightarrow> int \<Rightarrow> py_exception + draw_op" where
  "marker_line marker denom =
     bindE (py_truediv (270 * marker) denom) (\<lambda>q.
       Inr (RadialLine (fadd (float_of_int 135) q) 75 85 WHITE 2))"

subsection \<open>Speed gauge\<close>

definition speed_color :: "int \<Rightarrow> colour" where
  "speed_color v = (if v < 40 then GREEN else if v < 60 then YELLOW else RED)"

definition speed_angle :: "int \<Rightarrow> py_exception + int" where
  "speed_angle v = bindE (py_truediv (270 * v) SPEED_MAX) (\<lambda>q. Inr (py_int q))"

definition speed_image :: "env \<Rightarrow> fonts \<Rightarrow> int \<Rightarrow> py_exception + Image" where
  "speed_image en fs v =
     bindE (speed_angle v) (\<lambda>angle.
     bindE (mapE (\<lambda>marker. marker_line marker SPEED_MAX) [0, 20, 40, 60, SPEED_MAX])
       (\<lambda>markers.
     let text = str v;
         text_w = box_width (textbbox en (font_big fs) text);
         unit_w = box_width (textbbox en (font_small fs) ''km/h'')
     in Inr (draws (Image_new ''RGB'' (WIDTH, HEIGHT) BG)
          ([Ellipse (10, 10, 190, 190) None (Some GRAY) 3,
            draw_arc_gauge (20, 20, 180, 180) 135 (135 + angle) (speed_color v) 12]
           @ markers @
           [Text (100 - text_w div 2, 65) text WHITE (font_big fs),
            Text (100 - unit_w div 2, 125) ''km/h'' GRAY (font_small fs)]))))"

definition speed_path :: "int \<Rightarrow> string" where
  "speed_path v = BASE_DIR @ ''/speed/'' @ format_0w 3 v @ ''.png''"

definition speed_frame :: "env \<Rightarrow> fonts \<Rightarrow> int \<Rightarrow> unit prog" where
  "speed_frame en fs v =
     bindP (liftE (speed_image en fs v)) (\<lambda>img. save en img (speed_path v))"

subsection \<open>RPM gauge\<close>

definition rpm_color :: "int \<Rightarrow> colour" where
  "rpm_color rpm_val =
     (if rpm_val < 4000 then GREEN else if rpm_val < 6000 then YELLOW else RED)"

definition rpm_angle :: "int \<Rightarrow> py_exception + int" where
  "rpm_angle i = bindE (py_truediv (270 * i) 16) (\<lambda>q. Inr (py_int q))"

definition rpm_image :: "env \<Rightarrow> fonts \<Rightarrow> int \<Rightarrow> py_exception + Image" where
  "rpm_image en fs i =
     (let rpm_val = i * 500 in
      bindE (rpm_angle i) (\<lambda>angle.
      bindE (mapE (\<lambda>marker. marker_line marker 16) [0..8]) (\<lambda>markers.
      let text = str rpm_val;
          text_w = box_width (textbbox en (font_big fs) text)
      in Inr (draws (Image_new ''RGB'' (WIDTH, HEIGHT) BG)
           ([Ellipse (10, 10, 190, 190) None (Some GRAY) 3,
             draw_arc_gauge (20, 20, 180, 180) 135 (135 + angle) (rpm_color rpm_val) 12]
            @ markers @
            [Text (100 - text_w div 2, 65) text WHITE (font_big fs),
             Text (75, 125) ''RPM'' GRAY (font_small fs)])))))"

definition rpm_path :: "int \<Rightarrow> string" where
  "rpm_path i = BASE_DIR @ ''/rpm/'' @ format_0w 2 i @ ''.png''"

definition rpm_frame :: "env \<Rightarrow> fonts \<Rightarrow> int \<Rightarrow> unit prog" where
  "rpm_frame en fs i =
     bindP (liftE (rpm_image en fs i)) (\<lambda>img. save en img (rpm_path i))"

subsection \<open>Temperature bars\<close>

definition temp_fill_h :: "int \<Rightarrow> py_exception + int" where
  "temp_fill_h t =
     bindE (py_truediv t 100) (\<lambda>q. Inr (py_int (fmul q (float_of_int 175))))"

definition temp_tick :: "rat \<Rightarrow> draw_op list" where
  "temp_tick tick =
     (let y = 201 - py_int (fmul (float_lit tick) (float_of_int 175))
      in [Line [(15, y), (22, y)] GRAY 2, Line [(58, y), (65, y)] GRAY 2])"

definition temp_image :: "env \<Rightarrow> fonts \<Rightarrow> int \<Rightarrow> py_exception + Image" where
  "temp_image en fs t =
     (let base_y = 201 in
      bindE (temp_fill_h t) (\<lambda>fill_h.
      bindE (get_temp_color t 100) (\<lambda>color.
      let top_y = base_y - fill_h;
          temp_text = str t;
          text_w = box_width (textbbox en (font_small fs) temp_text)
      in Inr (draws (Image_new ''RGB'' (80, 220) BG)
           ([Rectangle (15, 15, 65, 205) None (Some WHITE) 3]
            @ (if fill_h > 0 then [Rectangle (19, top_y, 61, base_y) (Some color) None 1]
               else [])
            @ concat (map temp_tick [1 / 4, 1 / 2, 3 / 4])
            @ [Text (40 - text_w div 2, 208) temp_text WHITE (font_small fs)])))))"

definition temp_path :: "string \<Rightarrow> int \<Rightarrow> string" where
  "temp_path folder t = BASE_DIR @ ''/'' @ folder @ ''/'' @ format_0w 3 t @ ''.png''"

definition temp_bar_enhanced :: "env \<Rightarrow> fonts \<Rightarrow> string \<Rightarrow> string \<Rightarrow> unit prog" where
  "temp_bar_enhanced en fs folder label =
     for_each [0..100] (\<lambda>t.
       bindP (liftE (temp_image en fs t)) (\<lambda>img. save en img (temp_path folder t)))"

subsection \<open>State of charge\<close>

definition soc_fill_color :: "int \<Rightarrow> colour" where
  "soc_fill_color s = (if s > 60 then GREEN else if s > 20 then YELLOW else RED)"

definition soc_fill_width :: "int \<Rightarrow> py_exception + int" where
  "soc_fill_width s =
     bindE (py_truediv s 100) (\<lambda>q. Inr (py_int (fmul q (float_of_int 200))))"

definition soc_fill :: "int \<Rightarrow> int \<Rightarrow> draw_op list" where
  "soc_fill s fill_width =
     (if fill_width > 0
      then [Rectangle (15, 25, 15 + fill_width, 55) (Some (soc_fill_color s)) None 1]
      else [])"

text \<open>Containment of one rectangle \<open>(x0, y0, x1, y1)\<close> in another, for stating that a
  fill stays within its outline.\<close>

definition box_inside :: "box \<Rightarrow> box \<Rightarrow> bool" where
  "box_inside a b =
     (case a of (ax0, ay0, ax1, ay1) \<Rightarrow> case b of (bx0, by0, bx1, by1) \<Rightarrow>
        bx0 \<le> ax0 \<and> by0 \<le> ay0 \<and> ax0 \<le> ax1 \<and> ay0 \<le> ay1 \<and> ax1 \<le> bx1 \<and> ay1 \<le> by1)"

definition soc_image :: "env \<Rightarrow> fonts \<Rightarrow> int \<Rightarrow> py_exception + Image" where
  "soc_image en fs s =
     bindE (soc_fill_width s) (\<lambda>fill_width.
     let text = str s @ ''%'';
         text_w = box_width (textbbox en (font_med fs) text);
         text_color = (if s > 30 then BLACK else WHITE)
     in Inr (draws (Image_new ''RGB'' (240, 80) BG)
          ([Rectangle (10, 20, 220, 60) None (Some WHITE) 4,
            Rectangle (220, 30, 230, 50) (Some WHITE) None 1]
           @ soc_fill s fill_width
           @ [Text (120 - text_w div 2, 28) text text_color (font_med fs)])))"

definition soc_path :: "int \<Rightarrow> string" where
  "soc_path s = BASE_DIR @ ''/soc/'' @ format_0w 3 s @ ''.png''"

definition soc_frame :: "env \<Rightarrow> fonts \<Rightarrow> int \<Rightarrow> unit prog" where
  "soc_frame en fs s =
     bindP (liftE (soc_image en fs s)) (\<lambda>img. save en img (soc_path s))"

subsection \<open>Voltage and current bars\<close>

definition vi_fill_width :: "int \<Rightarrow> int \<Rightarrow> py_exception + int" where
  "vi_fill_width v max_val =
     bindE (py_truediv v max_val) (\<lambda>q. Inr (py_int (fmul q (float_of_int 210))))"

definition vi_image :: "fonts \<Rightarrow> int \<Rightarrow> string \<Rightarrow> int \<Rightarrow> py_exception + Image" where
  "vi_image fs max_val unit v =
     bindE (vi_fill_width v max_val) (\<lambda>fill_width.
     let text = str v @ unit
     in Inr (draws (Image_new ''RGB'' (240, 70) BG)
          ([Rectangle (10, 30, 230, 60) None (Some WHITE) 3]
           @ (if fill_width > 0
              then [Rectangle (13, 33, 13 + fill_width, 57) (Some BLUE) None 1] else [])
           @ [Text (15, 5) text WHITE (font_small fs)])))"

definition vi_path :: "string \<Rightarrow> int \<Rightarrow> string" where
  "vi_path folder v = BASE_DIR @ ''/'' @ folder @ ''/'' @ format_0w 3 v @ ''.png''"

definition vi_bar_enhanced ::
    "env \<Rightarrow> fonts \<Rightarrow> string \<Rightarrow> string \<Rightarrow> int \<Rightarrow> string \<Rightarrow> unit prog" where
  "vi_bar_enhanced en fs folder label max_val unit =
     for_each [0..max_val] (\<lambda>v.
       bindP (liftE (vi_image fs max_val unit v)) (\<lambda>img. save en img (vi_path folder v)))"

subsection \<open>Charging icons\<close>

definition bolt :: "point list" where
  "bolt = [(50, 10), (30, 50), (45, 50), (35, 90), (70, 45), (55, 45)]"

definition charging_image :: "bool \<Rightarrow> int \<Rightarrow> Image" where
  "charging_image charging frame =
     draws (Image_new ''RGB'' (100, 100) BG)
       (if charging
        then [Polygon bolt (Some (if frame mod 2 = 0 then GREEN else [0, 180, 100])) None 1,
              Ellipse (10 + frame * 2, 10 + frame * 2, 90 - frame * 2, 90 - frame * 2)
                None (Some GREEN) 2]
        else [Polygon bolt (Some RED) None 1])"

definition charging_icon_animated :: "bool \<Rightarrow> Image list" where
  "charging_icon_animated charging = map (charging_image charging) [0..3]"

subsection \<open>Turn indicators\<close>

definition brightness :: "int \<Rightarrow> int \<Rightarrow> py_exception + int" where
  "brightness frame frames =
     bindE (py_truediv frame (frames - 1)) (\<lambda>q.
       Inr (py_int (fmul (float_of_int 255)
              (fadd (float_lit (3 / 10)) (fmul (float_lit (7 / 10)) q)))))"

definition left_pts :: "point list" where
  "left_pts = [(100, 15), (30, 50), (100, 85), (100, 65), (130, 65), (130, 35), (100, 35)]"

definition right_pts :: "point list" where
  "right_pts = [(40, 15), (110, 50), (40, 85), (40, 65), (10, 65), (10, 35), (40, 35)]"

definition indicator_image :: "string \<Rightarrow> int \<Rightarrow> int \<Rightarrow> py_exception + Image" where
  "indicator_image direction frames frame =
     bindE (brightness frame frames) (\<lambda>b.
     let col = [0, b, py_int (fmul (float_of_int b) (float_lit (6 / 10)))];
         pts = (if direction = ''left'' then left_pts else right_pts)
     in Inr (draws (Image_new ''RGB'' (140, 100) BG)
          [Polygon pts (Some col) (Some WHITE) 2]))"

definition indicator_animated :: "string \<Rightarrow> int \<Rightarrow> py_exception + Image list" where
  "indicator_animated direction frames =
     mapE (indicator_image direction frames) [0..frames - 1]"

definition indicator_off :: "point list \<Rightarrow> Image" where
  "indicator_off pts =
     draws (Image_new ''RGB'' (140, 100) BG) [Polygon pts (Some GRAY) (Some WHITE) 2]"

subsection \<open>Warning icons\<close>

definition warnings :: "(string \<times> colour \<times> string) list" where
  "warnings = [(''battery_low'', RED, ''!''), (''overheat'', RED, ''H''),
               (''motor_fault'', ORANGE, ''M''), (''brake'', RED, ''B''),
               (''abs'', YELLOW, ''ABS'')]"

definition warning_image :: "env \<Rightarrow> fonts \<Rightarrow> string \<times> colour \<times> string \<Rightarrow> Image" where
  "warning_image en fs item =
     (case item of (name, color, symbol) \<Rightarrow>
      let fill_col = [color ! 0, color ! 1, color ! 2, 120];
          pts = [(50, 10), (90, 90), (10, 90)];
          text_w = box_width (textbbox en (font_big fs) symbol)
      in draws (Image_new ''RGBA'' (100, 100) (BG @ [255]))
           ((if name \<in> set [''battery_low'', ''overheat'']
             then [Polygon pts (Some fill_col) None 1, Line (pts @ [pts ! 0]) color 4]
             else [Ellipse (10, 10, 90, 90) (Some fill_col) (Some color) 4])
            @ [Text (50 - text_w div 2, 35) symbol color (font_big fs)]))"

definition warning_path :: "string \<Rightarrow> string" where
  "warning_path name = BASE_DIR @ ''/warnings/'' @ name @ ''.png''"

subsection \<open>The script, top to bottom\<close>

definition save_enumerated :: "env \<Rightarrow> string \<Rightarrow> Image list \<Rightarrow> unit prog" where
  "save_enumerated en stem frames =
     for_each (enumerate 0 frames) (\<lambda>(i, frame).
       save en frame (stem @ str (int i) @ ''.png''))"

definition real2 :: "env \<Rightarrow> unit prog" where
  "real2 en =
     (let fs = load_fonts en in
      seqP [
        for_each folders (\<lambda>f. makedirs en (BASE_DIR @ ''/'' @ f)),
        py_print en ''Generating speed gauge...'',
        for_each [0..SPEED_MAX] (speed_frame en fs),
        py_print en ''Generating RPM gauge...'',
        for_each [0..16] (rpm_frame en fs),
        py_print en ''Generating temperature bars...'',
        temp_bar_enhanced en fs ''temp_motor'' ''Motor'',
        temp_bar_enhanced en fs ''temp_controller'' ''Ctrl'',
        temp_bar_enhanced en fs ''temp_battery'' ''Batt'',
        py_print en ''Generating SOC bar...'',
        for_each [0..100] (soc_frame en fs),
        py_print en ''Generating V/I bars...'',
        vi_bar_enhanced en fs ''battery_vi'' ''Battery'' 100 ''V'',
        vi_bar_enhanced en fs ''motor_vi'' ''Motor'' 150 ''A'',
        py_print en ''Generating charging icons...'',
        save_enumerated en (BASE_DIR @ ''/charging/charging_'') (charging_icon_animated True),
        save en (charging_icon_animated False ! 0) (BASE_DIR @ ''/charging/discharging.png''),
        py_print en ''Generating turn indicators...'',
        bindP (liftE (indicator_animated ''left'' 3))
          (save_enumerated en (BASE_DIR @ ''/indicators/left_'')),
        bindP (liftE (indicator_animated ''right'' 3))
          (save_enumerated en (BASE_DIR @ ''/indicators/right_'')),
        save en (indicator_off left_pts) (BASE_DIR @ ''/indicators/left_off.png''),
        save en (indicator_off right_pts) (BASE_DIR @ ''/indicators/right_off.png''),
        py_print en ''Generating warning icons...'',
        for_each warnings (\<lambda>item.
          save en (warning_image en fs item) (warning_path (fst item))),
        py_print en (CHR 0x0A # ''ALL DGUS ASSETS GENERATED SUCCESSFULLY''),
        py_print en (''Output directory: '' @ BASE_DIR @ ''/''),
        py_print en (''Total folders: '' @ str (int (length folders))),
        py_print en (CHR 0x0A # ''Generated assets:''),
        py_print en (''  - Speed: '' @ str (SPEED_MAX + 1) @ '' frames (0-'' @ str SPEED_MAX
                  @ '' km/h)''),
        py_print en ''  - RPM: 17 frames (0-8000 RPM)'',
        py_print en ''  - Temperatures: 101 frames each (0-100 C)'',
        py_print en ''  - SOC: 101 frames (0-100%)'',
        py_print en ''  - Battery V/I: 101 frames'',
        py_print en ''  - Motor V/I: 151 frames'',
        py_print en ''  - Charging: 4 animated frames + 1 static'',
        py_print en ''  - Indicators: 3 animated frames each + off states'',
        py_print en (''  - Warnings: '' @ str (int (length warnings)) @ '' icons'')])"

section \<open>The structured variant \<^verbatim>\<open>try.py\<close>\<close>

text \<open>The messages of \<^verbatim>\<open>try.py\<close> start with pictographs, given here by their UTF-8
  bytes: U+2713 check mark, U+274C cross mark, U+2705 white heavy check mark, U+1F4C1
  file folder, U+1F4E6 package, U+1F3A8 artist palette, U+2022 bullet and U+26A0 warning
  sign. On Windows the script first re-encodes standard output as UTF-8; \<open>encode_error\<close>
  describes standard output as it is after that, so it is \<open>None\<close> throughout on such a
  machine.\<close>

definition CHECK_MARK :: string where
  "CHECK_MARK = [CHR 0xE2, CHR 0x9C, CHR 0x93]"

definition CROSS_MARK :: string where
  "CROSS_MARK = [CHR 0xE2, CHR 0x9D, CHR 0x8C]"

definition WHITE_HEAVY_CHECK_MARK :: string where
  "WHITE_HEAVY_CHECK_MARK = [CHR 0xE2, CHR 0x9C, CHR 0x85]"

definition FILE_FOLDER :: string where
  "FILE_FOLDER = [CHR 0xF0, CHR 0x9F, CHR 0x93, CHR 0x81]"

definition PACKAGE :: string where
  "PACKAGE = [CHR 0xF0, CHR 0x9F, CHR 0x93, CHR 0xA6]"

definition ARTIST_PALETTE :: string where
  "ARTIST_PALETTE = [CHR 0xF0, CHR 0x9F, CHR 0x8E, CHR 0xA8]"

definition BULLET :: string where
  "BULLET = [CHR 0xE2, CHR 0x80, CHR 0xA2]"

definition WARNING_SIGN :: string where
  "WARNING_SIGN = [CHR 0xE2, CHR 0x9A, CHR 0xA0]"

definition Config_CANVAS_WIDTH :: int where "Config_CANVAS_WIDTH = 1024"
definition Config_CANVAS_HEIGHT :: int where "Config_CANVAS_HEIGHT = 600"
definition Config_OUTPUT_DIR :: string where "Config_OUTPUT_DIR = ''dgus_assets''"
definition Config_FONT_NAME :: string where "Config_FONT_NAME = ''DejaVuSans-Bold.ttf''"
definition Config_FONT_SIZE_BIG :: int where "Config_FONT_SIZE_BIG = 36"
definition Config_FONT_SIZE_MED :: int where "Config_FONT_SIZE_MED = 26"

definition Config_FOLDERS :: "string list" where
  "Config_FOLDERS = [''background'', ''labels'', ''indicators'', ''warning'', ''bars'',
                     ''charging'']"

text \<open>\<^verbatim>\<open>OUTPUT_DIR / a / b\<close> on \<^verbatim>\<open>Path\<close> objects.\<close>

definition path_join :: "string \<Rightarrow> string \<Rightarrow> string" where
  "path_join a b = a @ ''/'' @ b"

datatype Color = Color int int int int

fun as_rgb :: "Color \<Rightarrow> colour" where
  "as_rgb (Color r g b a) = [r, g, b]"

fun as_rgba :: "Color \<Rightarrow> colour" where
  "as_rgba (Color r g b a) = [r, g, b, a]"

definition Palette_BG :: Color where "Palette_BG = Color 235 237 240 255"
definition Palette_DARK :: Color where "Palette_DARK = Color 40 60 80 255"
definition Palette_WHITE :: Color where "Palette_WHITE = Color 255 255 255 255"
definition Palette_GREEN :: Color where "Palette_GREEN = Color 0 220 120 255"
definition Palette_YELLOW :: Color where "Palette_YELLOW = Color 255 200 0 255"
definition Palette_RED :: Color where "Palette_RED = Color 220 50 50 255"
definition Palette_BLUE :: Color where "Palette_BLUE = Color 0 150 255 255"
definition Palette_GRAY :: Color where "Palette_GRAY = Color 150 150 150 255"
definition Palette_DARK_BG :: Color where "Palette_DARK_BG = Color 60 90 120 255"
definition Palette_TRANSPARENT :: Color where "Palette_TRANSPARENT = Color 0 0 0 0"

datatype Direction = LEFT | RIGHT

datatype State = ON | OFF

record LabelSpec =
  label_text :: string
  filename :: string

record ArrowSpec =
  spec_name :: string
  spec_direction :: Direction
  spec_state :: State

text \<open>The two font handles of an \<^verbatim>\<open>AssetGenerator\<close>; its \<^verbatim>\<open>config\<close> is the class
  \<^verbatim>\<open>Config\<close>, a set of constants.\<close>

record AssetGenerator =
  gen_font_big :: font
  gen_font_med :: font

definition create_directories :: "env \<Rightarrow> unit prog" where
  "create_directories en =
     seqP [for_each Config_FOLDERS (\<lambda>folder. makedirs en (path_join Config_OUTPUT_DIR folder)),
           py_print en (''[OK] Created '' @ str (int (length Config_FOLDERS))
                     @ '' output directories'')]"

text \<open>\<^verbatim>\<open>_load_fonts\<close>: the handler is \<^verbatim>\<open>except (OSError, IOError)\<close>; anything else
  that \<^verbatim>\<open>truetype\<close> raises leaves the method.\<close>

definition load_fonts_try :: "env \<Rightarrow> AssetGenerator prog" where
  "load_fonts_try en =
     try_except
       (bindP (liftE (truetype en Config_FONT_NAME Config_FONT_SIZE_BIG)) (\<lambda>b.
        bindP (liftE (truetype en Config_FONT_NAME Config_FONT_SIZE_MED)) (\<lambda>m.
        bindP (py_print en (''[OK] Loaded font: '' @ Config_FONT_NAME)) (\<lambda>_.
        returnP \<lparr>gen_font_big = b, gen_font_med = m\<rparr>))))
       (\<lambda>e. if is_OSError e
            then bindP (py_print en (''[WARNING] Font '' @ [CHR 0x27] @ Config_FONT_NAME
                                  @ [CHR 0x27] @ '' not found, using default''))
                   (\<lambda>_. returnP \<lparr>gen_font_big = DefaultFont, gen_font_med = DefaultFont\<rparr>)
            else raiseP e)"

text \<open>\<^verbatim>\<open>AssetGenerator()\<close>: \<^verbatim>\<open>__init__\<close> runs \<^verbatim>\<open>_setup\<close>.\<close>

definition AssetGenerator_init :: "env \<Rightarrow> AssetGenerator prog" where
  "AssetGenerator_init en = bindP (create_directories en) (\<lambda>_. load_fonts_try en)"

definition create_background :: "env \<Rightarrow> unit prog" where
  "create_background en =
     (let panels = [((40, 100, 300, 380), 20, Palette_DARK, 3),
                    ((360, 80, 660, 380), 150, Palette_BLUE, 5),
                    ((740, 100, 980, 260), 20, Palette_DARK, 3)];
          bottom_panels = [((60, 430, 440, 560), 20, Palette_DARK_BG),
                           ((580, 430, 960, 560), 20, Palette_DARK_BG)];
          img = draws (Image_new ''RGB'' (Config_CANVAS_WIDTH, Config_CANVAS_HEIGHT)
                         (as_rgb Palette_BG))
                  (map (\<lambda>(coords, radius, color, width).
                          RoundedRectangle coords radius None (Some (as_rgb color)) width)
                       panels
                   @ map (\<lambda>(coords, radius, fill_color).
                            RoundedRectangle coords radius (Some (as_rgb fill_color)) None 1)
                       bottom_panels);
          output_path = path_join (path_join Config_OUTPUT_DIR ''background'')
                          ''dashboard_bg.png''
      in seqP [save en img output_path, py_print en (CHECK_MARK @ '' Background generated'')])"

definition create_label :: "env \<Rightarrow> AssetGenerator \<Rightarrow> LabelSpec \<Rightarrow> unit prog" where
  "create_label en self spec =
     (let img = draws (Image_new ''RGBA'' (260, 50) (as_rgba Palette_TRANSPARENT))
                  [Text (10, 5) (label_text spec) (as_rgb Palette_DARK) (gen_font_med self)];
          output_path = path_join (path_join Config_OUTPUT_DIR ''labels'') (filename spec)
      in save en img output_path)"

definition labels :: "LabelSpec list" where
  "labels = [\<lparr>label_text = ''SPEED (km/h)'', filename = ''speed.png''\<rparr>,
             \<lparr>label_text = ''RPM'', filename = ''rpm.png''\<rparr>,
             \<lparr>label_text = ''TEMP - MOTOR'', filename = ''temp_motor.png''\<rparr>,
             \<lparr>label_text = ''TEMP - CONTROLLER'', filename = ''temp_controller.png''\<rparr>,
             \<lparr>label_text = ''TEMP - BATTERY'', filename = ''temp_battery.png''\<rparr>,
             \<lparr>label_text = ''BATTERY (V / I)'', filename = ''battery.png''\<rparr>,
             \<lparr>label_text = ''MOTOR (V / I)'', filename = ''motor.png''\<rparr>]"

definition create_labels :: "env \<Rightarrow> AssetGenerator \<Rightarrow> unit prog" where
  "create_labels en self =
     seqP [for_each labels (create_label en self),
           py_print en (CHECK_MARK @ '' Generated '' @ str (int (length labels)) @ '' labels'')]"

definition create_arrow :: "Direction \<Rightarrow> State \<Rightarrow> Image" where
  "create_arrow direction state =
     (let color = (if state = ON then Palette_GREEN else Palette_GRAY);
          points = (if direction = LEFT
                    then [(80, 10), (20, 40), (80, 70), (80, 55), (110, 55), (110, 25), (80, 25)]
                    else [(40, 10), (100, 40), (40, 70), (40, 55), (10, 55), (10, 25), (40, 25)])
      in draws (Image_new ''RGBA'' (120, 80) (as_rgba Palette_TRANSPARENT))
           [Polygon points (Some (as_rgb color)) None 1])"

definition arrows :: "ArrowSpec list" where
  "arrows = [\<lparr>spec_name = ''left_off'', spec_direction = LEFT, spec_state = OFF\<rparr>,
             \<lparr>spec_name = ''left_on'', spec_direction = LEFT, spec_state = ON\<rparr>,
             \<lparr>spec_name = ''right_off'', spec_direction = RIGHT, spec_state = OFF\<rparr>,
             \<lparr>spec_name = ''right_on'', spec_direction = RIGHT, spec_state = ON\<rparr>]"

definition create_indicators :: "env \<Rightarrow> unit prog" where
  "create_indicators en =
     seqP [for_each arrows (\<lambda>spec.
             save en (create_arrow (spec_direction spec) (spec_state spec))
               (path_join (path_join Config_OUTPUT_DIR ''indicators'') (spec_name spec @ ''.png''))),
           py_print en (CHECK_MARK @ '' Generated '' @ str (int (length arrows))
                        @ '' arrow indicators'')]"

definition create_warning :: "State \<Rightarrow> Image" where
  "create_warning state =
     (let color = (if state = ON then Palette_RED else Palette_GRAY);
          points = [(50, 5), (5, 85), (95, 85)]
      in draws (Image_new ''RGBA'' (100, 90) (as_rgba Palette_TRANSPARENT))
           [Polygon points (Some (as_rgb color)) None 1])"

definition create_warnings :: "env \<Rightarrow> unit prog" where
  "create_warnings en =
     seqP [for_each [OFF, ON] (\<lambda>state.
             save en (create_warning state)
               (path_join (path_join Config_OUTPUT_DIR ''warning'')
                  (''warning_'' @ (if state = ON then ''on'' else ''off'') @ ''.png''))),
           py_print en (CHECK_MARK @ '' Generated warning icons'')]"

definition create_temp_bars :: "env \<Rightarrow> unit prog" where
  "create_temp_bars en =
     for_each [False, True] (\<lambda>filled.
       save en
         (draws (Image_new ''RGBA'' (50, 200) (as_rgba Palette_TRANSPARENT))
            ([Rectangle (0, 0, 50, 200) None (Some (as_rgb Palette_DARK)) 3]
             @ (if filled then [Rectangle (3, 90, 47, 197) (Some (as_rgb Palette_YELLOW)) None 1]
                else [])))
         (path_join (path_join Config_OUTPUT_DIR ''bars'')
            (''temp_bar_'' @ (if filled then ''fill'' else ''empty'') @ ''.png'')))"

definition create_soc_bars :: "env \<Rightarrow> unit prog" where
  "create_soc_bars en =
     for_each [False, True] (\<lambda>filled.
       save en
         (draws (Image_new ''RGBA'' (200, 40) (as_rgba Palette_TRANSPARENT))
            ([Rectangle (0, 0, 200, 40) None (Some (as_rgb Palette_DARK)) 3]
             @ (if filled then [Rectangle (3, 3, 160, 37) (Some (as_rgb Palette_GREEN)) None 1]
                else [])))
         (path_join (path_join Config_OUTPUT_DIR ''bars'')
            (''soc_bar_'' @ (if filled then ''fill'' else ''empty'') @ ''.png'')))"

definition create_bars :: "env \<Rightarrow> unit prog" where
  "create_bars en =
     seqP [create_temp_bars en, create_soc_bars en,
           py_print en (CHECK_MARK @ '' Generated bar indicators'')]"

definition create_charging_icon :: "bool \<Rightarrow> Image" where
  "create_charging_icon charging =
     (let color = (if charging then Palette_GREEN else Palette_RED);
          points = [(40, 5), (20, 45), (35, 45), (25, 75), (60, 30), (45, 30)]
      in draws (Image_new ''RGBA'' (80, 80) (as_rgba Palette_TRANSPARENT))
           [Polygon points (Some (as_rgb color)) None 1])"

definition create_charging_icons :: "env \<Rightarrow> unit prog" where
  "create_charging_icons en =
     seqP [for_each [True, False] (\<lambda>is_charging.
             save en (create_charging_icon is_charging)
               (path_join (path_join Config_OUTPUT_DIR ''charging'')
                  ((if is_charging then ''charging'' else ''discharging'') @ ''.png''))),
           py_print en (CHECK_MARK @ '' Generated charging icons'')]"

text \<open>\<^verbatim>\<open>_print_summary\<close>; the fourth line formats \<^verbatim>\<open>OUTPUT_DIR.absolute()\<close>.\<close>

definition print_summary :: "env \<Rightarrow> unit prog" where
  "print_summary en =
     seqP [py_print en (CHR 0x0A # replicate 70 CHR ''=''),
           py_print en (WHITE_HEAVY_CHECK_MARK
                        @ '' ALL DGUS DASHBOARD ASSETS GENERATED SUCCESSFULLY!''),
           py_print en (replicate 70 CHR ''=''),
           bindP (liftE (absolute en Config_OUTPUT_DIR))
             (\<lambda>p. py_print en (FILE_FOLDER @ '' Output: '' @ p)),
           py_print en (PACKAGE @ '' Folders: '' @ str (int (length Config_FOLDERS))),
           py_print en (ARTIST_PALETTE @ '' Assets generated:''),
           py_print en (''   '' @ BULLET @ '' Background (1)''),
           py_print en (''   '' @ BULLET @ '' Labels (7)''),
           py_print en (''   '' @ BULLET @ '' Indicators (4)''),
           py_print en (''   '' @ BULLET @ '' Warning icons (2)''),
           py_print en (''   '' @ BULLET @ '' Temperature bars (2)''),
           py_print en (''   '' @ BULLET @ '' SOC bars (2)''),
           py_print en (''   '' @ BULLET @ '' Charging icons (2)''),
           py_print en (replicate 70 CHR ''='')]"

text \<open>The generation pass is the body of the \<^verbatim>\<open>try\<close> in \<^verbatim>\<open>generate_all\<close>; the
  handler is \<^verbatim>\<open>except Exception as e\<close>, which reports on standard error and returns
  \<^verbatim>\<open>False\<close>.\<close>

definition generation_pass :: "env \<Rightarrow> AssetGenerator \<Rightarrow> unit prog" where
  "generation_pass en self =
     seqP [create_background en, create_labels en self, create_indicators en,
           create_warnings en, create_bars en, create_charging_icons en, print_summary en]"

definition generate_all :: "env \<Rightarrow> AssetGenerator \<Rightarrow> bool prog" where
  "generate_all en self =
     try_except
       (bindP (generation_pass en self) (\<lambda>_. returnP True))
       (\<lambda>e. if is_Exception e
            then bindP (print_stderr (CHR 0x0A # CROSS_MARK @ '' Error during generation: ''
                                      @ exception_str e))
                   (\<lambda>_. returnP False)
            else raiseP e)"

text \<open>\<^verbatim>\<open>main\<close> returns the status that \<^verbatim>\<open>sys.exit(main())\<close> hands to the system. The
  handler of \<^verbatim>\<open>KeyboardInterrupt\<close> prints to standard output, so it can raise in turn;
  that exception leaves \<^verbatim>\<open>main\<close>.\<close>

definition main :: "env \<Rightarrow> int prog" where
  "main en =
     try_except
       (bindP (AssetGenerator_init en) (\<lambda>generator.
        bindP (generate_all en generator) (\<lambda>success.
        returnP (if success then 0 else 1))))
       (\<lambda>e. if e = KeyboardInterrupt
            then bindP (py_print en (CHR 0x0A # WARNING_SIGN @ '' Generation cancelled by user''))
                   (\<lambda>_. returnP 130)
            else if is_Exception e
            then bindP (print_stderr (CHR 0x0A # CROSS_MARK @ '' Fatal error: ''
                                      @ exception_str e))
                   (\<lambda>_. returnP 1)
            else raiseP e)"

text \<open>How the process ends: \<^verbatim>\<open>sys.exit(n)\<close> with the status \<open>n\<close> that \<^verbatim>\<open>main\<close>
  returned, or an exception that left \<^verbatim>\<open>main\<close>, which the interpreter reports with a
  traceback before it exits with a status other than 0.\<close>

datatype exit = Exit int | Uncaught py_exception

definition program :: "env \<Rightarrow> world \<Rightarrow> exit \<times> world" where
  "program en w =
     (case main en w of (Inr n, w') \<Rightarrow> (Exit n, w') | (Inl e, w') \<Rightarrow> (Uncaught e, w'))"


section \<open>Reading the result of a run\<close>

text \<open>Whether a path lies in one of the asset folders, and the number a string of
  decimal digits denotes (used to show that the zero-padded frame numbers are all
  different).\<close>

definition in_folder :: "string \<Rightarrow> string \<Rightarrow> bool" where
  "in_folder folder p = prefix (BASE_DIR @ ''/'' @ folder @ ''/'') p"

definition nat_of_digits :: "string \<Rightarrow> nat" where
  "nat_of_digits s = foldl (\<lambda>a c. 10 * a + (of_char c - 48)) 0 s"

text \<open>\<open>sizes\<close> keeps the path and the pixel size of each saved file.
  \<open>emits m out\<close>: whenever \<open>m\<close> completes, it has added exactly the files \<open>out\<close> (path
  and size), in this order. \<open>completes m\<close>: \<open>m\<close> raises nothing, from any world.\<close>

definition sizes :: "(string \<times> Image) list \<Rightarrow> (string \<times> int \<times> int) list" where
  "sizes fs = map (\<lambda>(p, im). (p, img_size im)) fs"

definition emits :: "'a prog \<Rightarrow> (string \<times> int \<times> int) list \<Rightarrow> bool" where
  "emits m out =
     (\<forall>w x w'. m w = (Inr x, w') \<longrightarrow> (\<exists>new. files w' = files w @ new \<and> sizes new = out))"

definition completes :: "'a prog \<Rightarrow> bool" where
  "completes m = (\<forall>w. \<exists>x w'. m w = (Inr x, w'))"


text \<open>The files \<^verbatim>\<open>real2.py\<close> saves when nothing raises, each with its canvas size: the
  closed form of its loops (lemma \<open>real2_emits\<close> relates it to the script).\<close>

definition real2_manifest :: "(string \<times> int \<times> int) list" where
  "real2_manifest =
     map (\<lambda>v. (speed_path v, (WIDTH, HEIGHT))) [0..SPEED_MAX]
     @ map (\<lambda>i. (rpm_path i, (WIDTH, HEIGHT))) [0..16]
     @ map (\<lambda>t. (temp_path ''temp_motor'' t, (80, 220))) [0..100]
     @ map (\<lambda>t. (temp_path ''temp_controller'' t, (80, 220))) [0..100]
     @ map (\<lambda>t. (temp_path ''temp_battery'' t, (80, 220))) [0..100]
     @ map (\<lambda>s. (soc_path s, (240, 80))) [0..100]
     @ map (\<lambda>v. (vi_path ''battery_vi'' v, (240, 70))) [0..100]
     @ map (\<lambda>v. (vi_path ''motor_vi'' v, (240, 70))) [0..150]
     @ map (\<lambda>n. (BASE_DIR @ ''/charging/'' @ n @ ''.png'', (100, 100)))
         [''charging_0'', ''charging_1'', ''charging_2'', ''charging_3'', ''discharging'']
     @ map (\<lambda>n. (BASE_DIR @ ''/indicators/'' @ n @ ''.png'', (140, 100)))
         [''left_0'', ''left_1'', ''left_2'', ''right_0'', ''right_1'', ''right_2'',
          ''left_off'', ''right_off'']
     @ map (\<lambda>n. (warning_path n, (100, 100)))
         [''battery_low'', ''overheat'', ''motor_fault'', ''brake'', ''abs'']"

section \<open>Sample environments\<close>

text \<open>Concrete machines on which the theorems below are instantiated: one without the
  font file (\<^verbatim>\<open>truetype\<close> raises \<^verbatim>\<open>OSError\<close>), one whose imaging library was built
  without FreeType (\<^verbatim>\<open>truetype\<close> raises \<^verbatim>\<open>ImportError\<close>), one where saving a label
  fails, one where the user interrupts the run while a label is saved, one started with
  other arguments and environment variables in another directory, and two whose standard
  output is encoded in ASCII: there every text with a pictograph raises.\<close>

definition world0 :: world where
  "world0 = \<lparr>dirs = [], files = [], stdout = [], stderr = []\<rparr>"

definition env_no_font :: env where
  "env_no_font =
     \<lparr>argv = [], environ = [],
      truetype = (\<lambda>n s. Inl (OSError ''cannot open resource'')),
      textbbox = (\<lambda>f s. (0, 0, 6 * int (length s), 11)),
      save_raises = (\<lambda>p. None),
      mkdir_raises = (\<lambda>p. None),
      absolute = (\<lambda>p. Inr (''/home/user/'' @ p)),
      encode_error = (\<lambda>s. None)\<rparr>"







section \<open>Properties of the rounding function\<close>

lemma rhe_bounds: "\<lfloor>x\<rfloor> \<le> round_half_even x \<and> round_half_even x \<le> \<lfloor>x\<rfloor> + 1"
  by (simp add: round_half_even_def Let_def)

lemma rhe_of_int: "round_half_even (of_int n) = n"
  by (simp add: round_half_even_def Let_def)

lemma rhe_mono: "x \<le> y \<Longrightarrow> round_half_even x \<le> round_half_even y"
proof -
  assume xy: "x \<le> y"
  then have f: "\<lfloor>x\<rfloor> \<le> \<lfloor>y\<rfloor>" by (rule floor_mono)
  show ?thesis
  proof (cases "\<lfloor>x\<rfloor> = \<lfloor>y\<rfloor>")
    case True
    with xy show ?thesis by (auto simp: round_half_even_def Let_def)
  next
    case False
    with f have "\<lfloor>x\<rfloor> + 1 \<le> \<lfloor>y\<rfloor>" by simp
    with rhe_bounds[of x] rhe_bounds[of y] show ?thesis by linarith
  qed
qed

lemma rhe_near: "\<bar>x - of_int m\<bar> < 1 / 2 \<Longrightarrow> round_half_even x = m"
proof -
  assume a: "\<bar>x - of_int m\<bar> < 1 / 2"
  show ?thesis
  proof (cases "of_int m \<le> x")
    case True
    with a have "\<lfloor>x\<rfloor> = m" by (intro floor_unique) auto
    with a True show ?thesis by (auto simp: round_half_even_def Let_def)
  next
    case False
    with a have "\<lfloor>x\<rfloor> = m - 1" by (intro floor_unique) auto
    with a False show ?thesis by (auto simp: round_half_even_def Let_def)
  qed
qed

lemma rhe_tie: "x = of_int m + 1 / 2 \<Longrightarrow> round_half_even x = (if even m then m else m + 1)"
proof -
  assume a: "x = of_int m + 1 / 2"
  then have "\<lfloor>x\<rfloor> = m" by (intro floor_unique) auto
  with a show ?thesis by (auto simp: round_half_even_def Let_def)
qed

lemma rhe_minus: "round_half_even (- x) = - round_half_even x"
proof (cases "x = of_int \<lfloor>x\<rfloor>")
  case True
  then have "- x = of_int (- \<lfloor>x\<rfloor>)" by simp
  then have "round_half_even (- x) = - \<lfloor>x\<rfloor>" by (simp only: rhe_of_int)
  moreover have "round_half_even x = \<lfloor>x\<rfloor>" using True rhe_of_int[of "\<lfloor>x\<rfloor>"] by simp
  ultimately show ?thesis by simp
next
  case False
  define f where "f = \<lfloor>x\<rfloor>"
  have lo: "of_int f < x" using False of_int_floor_le[of x] unfolding f_def by linarith
  have hi: "x < of_int f + 1" unfolding f_def by linarith
  have fm: "\<lfloor>- x\<rfloor> = - f - 1" using lo hi by (intro floor_unique) auto
  have ev: "even (- f - 1) \<longleftrightarrow> odd f" by simp
  show ?thesis
    unfolding round_half_even_def Let_def fm f_def[symmetric]
    using lo hi ev by (auto simp: algebra_simps)
qed

lemma pow2_less_cancel: "(2::rat) powi a < 2 powi b \<Longrightarrow> a < b"
proof (rule ccontr)
  assume l: "(2::rat) powi a < 2 powi b" and "\<not> a < b"
  then have "b \<le> a" by simp
  then have "(2::rat) powi b \<le> 2 powi a" by (intro power_int_increasing) auto
  with l show False by simp
qed

lemma ilog2_bounds:
  assumes "0 < x"
  shows "2 powi (ilog2 x) \<le> x \<and> x < 2 powi (ilog2 x + 1)"
proof -
  obtain p q where pq: "quotient_of x = (p, q)" by (cases "quotient_of x")
  then have q: "0 < q" by (rule quotient_of_denom_pos)
  have x: "x = of_int p / of_int q" using pq by (rule quotient_of_div)
  with assms q have p: "0 < p" by (simp add: zero_less_divide_iff)
  define k where "k = bitlen p - bitlen q"
  have bp: "bitlen p \<ge> 1" "bitlen q \<ge> 1" using p q by (auto simp: bitlen_alt_def)
  have bnd: "(2::rat) powi (bitlen n - 1) \<le> of_int n \<and> of_int n < (2::rat) powi (bitlen n)"
    if "0 < n" for n :: int
  proof -
    from that have b: "1 \<le> bitlen n" by (auto simp: bitlen_alt_def)
    from bitlen_bounds[OF that]
    have "(2::int) ^ nat (bitlen n - 1) \<le> n" "n < (2::int) ^ nat (bitlen n)" by auto
    then have "rat_of_int (2 ^ nat (bitlen n - 1)) \<le> of_int n" "rat_of_int n < of_int (2 ^ nat (bitlen n))"
      by (simp_all only: of_int_le_iff of_int_less_iff)
    then show ?thesis using b by (simp add: power_int_nonneg_exp)
  qed
  note P = bnd[OF p] and Q = bnd[OF q]
  have qpos: "(0::rat) < of_int q" "(0::rat) < of_int p" using p q by simp_all
  have "(2::rat) powi (k - 1) = 2 powi (bitlen p - 1) / 2 powi (bitlen q)"
    by (simp add: k_def power_int_diff)
  also have "\<dots> < of_int p / of_int q"
    using P Q qpos by (intro frac_less2) auto
  finally have lo: "(2::rat) powi (k - 1) < x" by (simp add: x)
  have "x = of_int p / of_int q" by (rule x)
  also have "\<dots> < 2 powi (bitlen p) / 2 powi (bitlen q - 1)"
    using P Q qpos by (intro frac_less) auto
  also have "\<dots> = (2::rat) powi (k + 1)"
    by (simp add: k_def power_int_diff power_int_add)
  finally have hi: "x < (2::rat) powi (k + 1)" .
  show ?thesis
    using lo hi pq by (auto simp: ilog2_def Let_def k_def)
qed

lemma ilog2_unique:
  assumes "2 powi e \<le> x" "x < 2 powi (e + 1)"
  shows "ilog2 x = e"
proof -
  have x: "0 < x" using assms(1) by (rule less_le_trans[rotated]) simp
  from ilog2_bounds[OF x] have b: "2 powi (ilog2 x) \<le> x" "x < 2 powi (ilog2 x + 1)" by auto
  have "(2::rat) powi e < 2 powi (ilog2 x + 1)" using assms(1) b(2) by simp
  then have 1: "e < ilog2 x + 1" by (rule pow2_less_cancel)
  have "(2::rat) powi (ilog2 x) < 2 powi (e + 1)" using assms(2) b(1) by simp
  then have 2: "ilog2 x < e + 1" by (rule pow2_less_cancel)
  from 1 2 show ?thesis by simp
qed

lemma ilog2_mono: "0 < x \<Longrightarrow> x \<le> y \<Longrightarrow> ilog2 x \<le> ilog2 y"
proof -
  assume x: "0 < x" and xy: "x \<le> y"
  then have y: "0 < y" by simp
  from ilog2_bounds[OF x] ilog2_bounds[OF y] xy
  have "(2::rat) powi (ilog2 x) < 2 powi (ilog2 y + 1)" by simp
  then have "ilog2 x < ilog2 y + 1" by (rule pow2_less_cancel)
  then show ?thesis by simp
qed

lemma fl_eqI:
  assumes "2 powi e \<le> \<bar>x\<bar>" "\<bar>x\<bar> < 2 powi (e + 1)"
    and "q = max (e - 52) (- 1074)" "round_half_even (x / 2 powi q) = m"
  shows "fl x = of_int m * 2 powi q"
proof -
  have "(0::rat) < 2 powi e" by simp
  then have "0 < \<bar>x\<bar>" using assms(1) by (rule less_le_trans)
  then have "x \<noteq> 0" by simp
  moreover have "ilog2 \<bar>x\<bar> = e" using assms(1,2) by (rule ilog2_unique)
  ultimately show ?thesis using assms(3,4) by (simp add: fl_def Let_def)
qed

lemma fl_near:
  assumes "2 powi e \<le> \<bar>x\<bar>" "\<bar>x\<bar> < 2 powi (e + 1)"
    and "q = max (e - 52) (- 1074)" "\<bar>x / 2 powi q - of_int m\<bar> < 1 / 2"
  shows "fl x = of_int m * 2 powi q"
  using assms(1-3) rhe_near[OF assms(4)] by (rule fl_eqI)

lemma fl_minus: "fl (- x) = - fl x"
  by (simp add: fl_def Let_def rhe_minus)

lemma fl_nonneg: "0 \<le> x \<Longrightarrow> 0 \<le> fl x"
proof -
  assume x: "0 \<le> x"
  have "0 \<le> round_half_even (x / 2 powi q)" for q
    using rhe_mono[of 0 "x / 2 powi q"] rhe_of_int[of 0] x by simp
  then show ?thesis by (simp add: fl_def Let_def)
qed

lemma fl_mono_pos:
  assumes x: "0 < x" and xy: "x \<le> y"
  shows "fl x \<le> fl y"
proof -
  have y: "0 < y" using x xy by simp
  define ex ey where "ex = ilog2 x" and "ey = ilog2 y"
  define qx qy where "qx = max (ex - 52) (- 1074)" and "qy = max (ey - 52) (- 1074)"
  have exy: "ex \<le> ey" unfolding ex_def ey_def using x xy by (rule ilog2_mono)
  then have qxy: "qx \<le> qy" by (simp add: qx_def qy_def)
  have fx: "fl x = of_int (round_half_even (x / 2 powi qx)) * 2 powi qx"
    using x by (simp add: fl_def Let_def qx_def ex_def)
  have fy: "fl y = of_int (round_half_even (y / 2 powi qy)) * 2 powi qy"
    using y by (simp add: fl_def Let_def qy_def ey_def)
  show ?thesis
  proof (cases "qx = qy")
    case True
    have "x / 2 powi qy \<le> y / 2 powi qy" using xy by (simp add: divide_right_mono)
    then have "round_half_even (x / 2 powi qy) \<le> round_half_even (y / 2 powi qy)"
      by (rule rhe_mono)
    then show ?thesis unfolding fx fy True
      by (intro mult_right_mono) auto
  next
    case False
    with qxy have lt: "qx < qy" by simp
    then have qy': "qy = ey - 52" by (auto simp: qx_def qy_def)
    have c: "53 \<le> ey - qx" using lt qy' by simp
    have yb: "2 powi ey \<le> y" using ilog2_bounds[OF y] by (simp add: ey_def)
    have xb: "x < 2 powi (ex + 1)" using ilog2_bounds[OF x] by (simp add: ex_def)
    have "ex + 1 \<le> ey" using lt qy' by (auto simp: qx_def)
    then have "(2::rat) powi (ex + 1) \<le> 2 powi ey" by (intro power_int_increasing) auto
    with xb have xb': "x \<le> 2 powi ey" by simp
    have "x / 2 powi qx \<le> 2 powi ey / 2 powi qx" using xb' by (simp add: divide_right_mono)
    also have "\<dots> = of_int (2 ^ nat (ey - qx))"
      using c by (simp add: power_int_diff[symmetric] power_int_nonneg_exp)
    finally have "round_half_even (x / 2 powi qx) \<le> round_half_even (of_int (2 ^ nat (ey - qx)))"
      by (rule rhe_mono)
    then have "round_half_even (x / 2 powi qx) \<le> 2 ^ nat (ey - qx)"
      by (simp only: rhe_of_int)
    then have "rat_of_int (round_half_even (x / 2 powi qx)) \<le> of_int (2 ^ nat (ey - qx))"
      by (simp only: of_int_le_iff)
    then have "fl x \<le> of_int (2 ^ nat (ey - qx)) * 2 powi qx"
      unfolding fx by (intro mult_right_mono) auto
    also have "\<dots> = 2 powi ey"
      using c by (simp add: power_int_nonneg_exp[symmetric] power_int_add[symmetric])
    finally have 1: "fl x \<le> 2 powi ey" .
    have "of_int (2 ^ 52) = (2::rat) powi ey / 2 powi qy"
      by (simp add: qy' power_int_diff[symmetric])
    also have "\<dots> \<le> y / 2 powi qy" using yb by (simp add: divide_right_mono)
    finally have "round_half_even (of_int (2 ^ 52)) \<le> round_half_even (y / 2 powi qy)"
      by (rule rhe_mono)
    then have "2 ^ 52 \<le> round_half_even (y / 2 powi qy)" by (simp only: rhe_of_int)
    then have "rat_of_int (2 ^ 52) \<le> of_int (round_half_even (y / 2 powi qy))"
      by (simp only: of_int_le_iff)
    then have "of_int (2 ^ 52) * 2 powi qy \<le> fl y"
      unfolding fy by (intro mult_right_mono) auto
    moreover have "rat_of_int (2 ^ 52) * 2 powi qy = 2 powi ey"
      by (simp add: qy' power_int_diff)
    ultimately have 2: "2 powi ey \<le> fl y" by simp
    from 1 2 show ?thesis by simp
  qed
qed

lemma fl_mono: "x \<le> y \<Longrightarrow> fl x \<le> fl y"
proof -
  assume xy: "x \<le> y"
  consider "0 < x" | "x = 0" | "x < 0" "y < 0" | "x < 0" "0 \<le> y" by linarith
  then show ?thesis
  proof cases
    case 1 then show ?thesis using xy by (rule fl_mono_pos)
  next
    case 2 then show ?thesis using xy fl_nonneg[of y] by (simp add: fl_def)
  next
    case 3
    then have "fl (- y) \<le> fl (- x)" using xy by (intro fl_mono_pos) auto
    then show ?thesis by (simp add: fl_minus)
  next
    case 4
    have "0 \<le> fl (- x)" using 4 by (intro fl_nonneg) simp
    then have "fl x \<le> 0" by (simp add: fl_minus)
    with fl_nonneg[OF 4(2)] show ?thesis by simp
  qed
qed

lemma rhe_le: "x < of_int n + 1 / 2 \<Longrightarrow> round_half_even x \<le> n"
proof -
  assume a: "x < of_int n + 1 / 2"
  then have f: "\<lfloor>x\<rfloor> \<le> n" by linarith
  show ?thesis
  proof (cases "\<lfloor>x\<rfloor> = n")
    case True
    with a show ?thesis by (simp add: round_half_even_def Let_def)
  next
    case False
    with f rhe_bounds[of x] show ?thesis by linarith
  qed
qed

lemma fl_abs: "\<bar>fl x\<bar> = fl \<bar>x\<bar>"
proof (cases "0 \<le> x")
  case True
  then show ?thesis using fl_nonneg[of x] by simp
next
  case False
  then have "0 \<le> fl (- x)" by (intro fl_nonneg) simp
  then show ?thesis using False by (simp add: fl_minus)
qed

lemma fl_pow2: "- 1074 \<le> e \<Longrightarrow> fl (2 powi e) = 2 powi e"
proof -
  assume e: "- 1074 \<le> e"
  define q where "q = max (e - 52) (- 1074)"
  have q: "0 \<le> e - q" using e by (auto simp: q_def)
  have "(2::rat) powi e / 2 powi q = of_int (2 ^ nat (e - q))"
    using q by (simp add: power_int_diff[symmetric] power_int_nonneg_exp)
  then have r: "round_half_even (2 powi e / 2 powi q) = 2 ^ nat (e - q)"
    by (simp only: rhe_of_int)
  have "fl (2 powi e) = of_int (2 ^ nat (e - q)) * 2 powi q"
    by (rule fl_eqI[where e = e, OF _ _ q_def r]) (simp_all add: power_int_add)
  also have "\<dots> = 2 powi e"
    using q by (simp add: power_int_nonneg_exp[symmetric] power_int_add[symmetric])
  finally show ?thesis .
qed

lemma fl_overflow_threshold: "fl (2 ^ 1024 - 2 ^ 970) = 2 ^ 1024"
proof -
  have t: "round_half_even ((2 ^ 1024 - 2 ^ 970) / 2 powi 971) = 2 ^ 53"
    using rhe_tie[of "(2 ^ 1024 - 2 ^ 970) / 2 powi 971" "2 ^ 53 - 1"] by simp
  have "fl (2 ^ 1024 - 2 ^ 970) = of_int (2 ^ 53) * 2 powi 971"
    by (rule fl_eqI[where e = 1023, OF _ _ _ t]) simp_all
  then show ?thesis by simp
qed

lemma fl_below_threshold:
  assumes "\<bar>x\<bar> < 2 ^ 1024 - 2 ^ 970"
  shows "\<bar>fl x\<bar> < 2 ^ 1024"
proof (cases "\<bar>x\<bar> < 2 ^ 1023")
  case True
  then have "fl \<bar>x\<bar> \<le> fl (2 powi 1023)" by (intro fl_mono) simp
  also have "\<dots> = 2 powi 1023" by (rule fl_pow2) simp
  finally show ?thesis by (simp add: fl_abs)
next
  case False
  then have lo: "2 powi 1023 \<le> \<bar>\<bar>x\<bar>\<bar>" by simp
  have hi: "\<bar>\<bar>x\<bar>\<bar> < 2 powi (1023 + 1)" using assms by simp
  have "\<bar>x\<bar> / 2 powi 971 < of_int (2 ^ 53 - 1) + 1 / 2"
    using assms by (simp add: divide_less_eq)
  then have "round_half_even (\<bar>x\<bar> / 2 powi 971) \<le> 2 ^ 53 - 1" by (rule rhe_le)
  then have "rat_of_int (round_half_even (\<bar>x\<bar> / 2 powi 971)) \<le> of_int (2 ^ 53 - 1)"
    by (simp only: of_int_le_iff)
  then have "of_int (round_half_even (\<bar>x\<bar> / 2 powi 971)) * 2 powi 971 \<le> rat_of_int (2 ^ 53 - 1) * 2 powi 971"
    by (intro mult_right_mono) auto
  moreover have "fl \<bar>x\<bar> = of_int (round_half_even (\<bar>x\<bar> / 2 powi 971)) * 2 powi 971"
    by (rule fl_eqI[OF lo hi]) simp_all
  ultimately show ?thesis by (simp add: fl_abs)
qed

lemma fl_above_threshold:
  assumes "2 ^ 1024 - 2 ^ 970 \<le> \<bar>x\<bar>"
  shows "2 ^ 1024 \<le> \<bar>fl x\<bar>"
  using fl_mono[OF assms] unfolding fl_abs fl_overflow_threshold .


lemma fl_half: "fl (1 / 2) = 1 / 2"
  using fl_pow2[of "- 1"] by (simp add: power_int_minus_divide)

lemma fl_three_quarters: "fl (3 / 4) = 3 / 4"
proof -
  have "fl (3 / 4) = of_int 6755399441055744 * 2 powi (- 53)"
    by (rule fl_near[where e = "- 1"]) (simp_all add: power_int_minus_divide)
  then show ?thesis by (simp add: power_int_minus_divide)
qed

lemma fl_049: "fl (49 / 100) < 1 / 2"
proof -
  have "fl (49 / 100) = of_int 8827055269646172 * 2 powi (- 54)"
    by (rule fl_near[where e = "- 2"]) (simp_all add: power_int_minus_divide)
  then show ?thesis by (simp add: power_int_minus_divide)
qed

lemma fl_074: "fl (74 / 100) < 3 / 4"
proof -
  have "fl (74 / 100) = of_int 6665327448508334 * 2 powi (- 53)"
    by (rule fl_near[where e = "- 1"]) (simp_all add: power_int_minus_divide)
  then show ?thesis by (simp add: power_int_minus_divide)
qed

lemma py_truediv_finite:
  assumes "b \<noteq> 0" "\<bar>rat_of_int a / of_int b\<bar> < 2 ^ 1024 - 2 ^ 970"
  shows "py_truediv a b = Inr (fl (of_int a / of_int b))"
  using assms(1) fl_below_threshold[OF assms(2)] by (simp add: py_truediv_def Let_def)

lemma py_truediv_overflow:
  assumes "b \<noteq> 0" "2 ^ 1024 - 2 ^ 970 \<le> \<bar>rat_of_int a / of_int b\<bar>"
  shows "py_truediv a b = Inl OverflowError"
  using assms(1) fl_above_threshold[OF assms(2)] by (simp add: py_truediv_def Let_def)

lemma py_truediv_small:
  assumes "b \<noteq> 0" "\<bar>a\<bar> \<le> 1000000 * \<bar>b\<bar>"
  shows "py_truediv a b = Inr (fl (of_int a / of_int b))"
proof (rule py_truediv_finite[OF assms(1)])
  have "rat_of_int \<bar>a\<bar> \<le> rat_of_int (1000000 * \<bar>b\<bar>)"
    using assms(2) by (simp only: of_int_le_iff)
  then have "\<bar>rat_of_int a\<bar> \<le> 1000000 * \<bar>of_int b\<bar>" by simp
  then have "\<bar>rat_of_int a / of_int b\<bar> \<le> 1000000"
    using assms(1) by (simp add: divide_le_eq)
  also have "(1000000::rat) < 2 ^ 1024 - 2 ^ 970" by simp
  finally show "\<bar>rat_of_int a / of_int b\<bar> < 2 ^ 1024 - 2 ^ 970" .
qed

lemma fl_exact:
  assumes n: "\<bar>n\<bar> < 2 ^ 53" and k: "k \<le> 1074"
  shows "fl (of_int n / 2 ^ k) = of_int n / 2 ^ k"
proof (cases "n = 0")
  case True
  then show ?thesis by (simp add: fl_def)
next
  case False
  define x :: rat where "x = of_int n / 2 ^ k"
  have x0: "x \<noteq> 0" using False by (simp add: x_def)
  then have ax: "0 < \<bar>x\<bar>" by simp
  define e where "e = ilog2 \<bar>x\<bar>"
  define q where "q = max (e - 52) (- 1074)"
  have "rat_of_int \<bar>n\<bar> < of_int (2 ^ 53)" using n by (simp only: of_int_less_iff)
  then have "\<bar>x\<bar> < 2 ^ 53 / 2 ^ k"
    by (simp add: x_def divide_strict_right_mono)
  also have "\<dots> = 2 powi (53 - int k)" by (simp add: power_int_diff)
  finally have "2 powi e < (2::rat) powi (53 - int k)"
    using ilog2_bounds[OF ax] by (simp add: e_def)
  then have "e < 53 - int k" by (rule pow2_less_cancel)
  then have qk: "q \<le> - int k" using k by (simp add: q_def)
  have "x / 2 powi q = of_int n * (2 powi (- int k) / 2 powi q)"
    by (simp add: x_def power_int_minus_divide)
  also have "2 powi (- int k) / 2 powi q = (2::rat) powi (- int k - q)"
    by (simp add: power_int_diff)
  also have "\<dots> = of_int (2 ^ nat (- int k - q))"
    using qk by (simp add: power_int_nonneg_exp)
  finally have "x / 2 powi q = of_int (n * 2 ^ nat (- int k - q))" by simp
  then have "round_half_even (x / 2 powi q) = n * 2 ^ nat (- int k - q)"
    by (simp only: rhe_of_int)
  then have "fl x = of_int (n * 2 ^ nat (- int k - q)) * 2 powi q"
    using x0 by (simp add: fl_def Let_def q_def e_def)
  also have "\<dots> = of_int n * ((2::rat) powi (- int k - q) * 2 powi q)"
    using qk by (simp add: power_int_nonneg_exp)
  also have "(2::rat) powi (- int k - q) * 2 powi q = 2 powi (- int k)"
    by (simp add: power_int_add[symmetric])
  finally show ?thesis by (simp add: x_def power_int_minus_divide)
qed

lemma fl_of_int: "\<bar>n\<bar> < 2 ^ 53 \<Longrightarrow> fl (of_int n) = of_int n"
  using fl_exact[of n 0] by simp

lemma float_of_int_small: "\<bar>n\<bar> < 2 ^ 53 \<Longrightarrow> float_of_int n = of_int n"
  by (simp add: float_of_int_def fl_of_int)

lemma fl_zero: "fl 0 = 0"
  by (simp add: fl_def)

lemma fl_one: "fl 1 = 1"
  using fl_of_int[of 1] by simp

lemma fl_unit_interval: "0 \<le> x \<Longrightarrow> x \<le> 1 \<Longrightarrow> 0 \<le> fl x \<and> fl x \<le> 1"
  using fl_mono[of 0 x] fl_mono[of x 1] by (simp add: fl_zero fl_one)

text \<open>The quotient of an index by its range end, as every fill computation forms it.\<close>

lemma py_truediv_fraction:
  assumes "0 \<le> a" "a \<le> b" "0 < b"
  shows "\<exists>q. py_truediv a b = Inr q \<and> q = fl (of_int a / of_int b) \<and> 0 \<le> q \<and> q \<le> 1"
proof -
  have "py_truediv a b = Inr (fl (of_int a / of_int b))"
    using assms by (intro py_truediv_small) auto
  moreover have "0 \<le> rat_of_int a / of_int b" "rat_of_int a / of_int b \<le> 1"
    using assms by (simp_all add: divide_le_eq)
  ultimately show ?thesis using fl_unit_interval by simp
qed

lemma py_int_floor: "0 \<le> x \<Longrightarrow> py_int x = \<lfloor>x\<rfloor>"
  by (simp add: py_int_def)

lemma py_int_mono: "x \<le> y \<Longrightarrow> py_int x \<le> py_int y"
proof -
  assume xy: "x \<le> y"
  show ?thesis
  proof (cases "0 \<le> x")
    case True
    then show ?thesis using xy floor_mono[OF xy] by (simp add: py_int_def)
  next
    case False
    show ?thesis
    proof (cases "0 \<le> y")
      case True
      have "\<lceil>x\<rceil> \<le> 0" using False by (simp add: ceiling_le_iff)
      moreover have "0 \<le> \<lfloor>y\<rfloor>" using True by simp
      ultimately have "\<lceil>x\<rceil> \<le> \<lfloor>y\<rfloor>" by (rule order_trans)
      then show ?thesis using False True by (simp add: py_int_def)
    next
      case n: False
      then show ?thesis using False ceiling_mono[OF xy] by (simp add: py_int_def)
    qed
  qed
qed

lemma lit_03: "float_lit (3 / 10) = 5404319552844595 / 2 ^ 54"
proof -
  have "fl (3 / 10) = of_int 5404319552844595 * 2 powi (- 54)"
    by (rule fl_near[where e = "- 2"]) (simp_all add: power_int_minus_divide)
  then show ?thesis by (simp add: float_lit_def power_int_minus_divide)
qed

lemma lit_07: "float_lit (7 / 10) = 3152519739159347 / 2 ^ 52"
proof -
  have "fl (7 / 10) = of_int 6305039478318694 * 2 powi (- 53)"
    by (rule fl_near[where e = "- 1"]) (simp_all add: power_int_minus_divide)
  then show ?thesis by (simp add: float_lit_def power_int_minus_divide)
qed

lemma fl_03_plus_07: "fl (5404319552844595 / 2 ^ 54 + 3152519739159347 / 2 ^ 52) = 1"
proof -
  let ?x = "5404319552844595 / 2 ^ 54 + 3152519739159347 / 2 ^ 52 :: rat"
  have t: "round_half_even (?x / 2 powi (- 53)) = 2 ^ 53"
    using rhe_tie[of "?x / 2 powi (- 53)" "2 ^ 53 - 1"] by (simp add: power_int_minus_divide)
  have "fl ?x = of_int (2 ^ 53) * 2 powi (- 53)"
    by (rule fl_eqI[where e = "- 1", OF _ _ _ t]) (simp_all add: power_int_minus_divide)
  then show ?thesis by (simp add: power_int_minus_divide)
qed

lemma fl_255_times_03: "fl (255 * (5404319552844595 / 2 ^ 54)) = 153 / 2"
proof -
  have "fl (255 * (5404319552844595 / 2 ^ 54)) = of_int 5383208929591296 * 2 powi (- 46)"
    by (rule fl_near[where e = 6]) (simp_all add: power_int_minus_divide)
  then show ?thesis by (simp add: power_int_minus_divide)
qed

lemma brightness_range:
  assumes "0 \<le> q" "q \<le> 1"
  defines "c \<equiv> fmul (float_of_int 255) (fadd (float_lit (3 / 10)) (fmul (float_lit (7 / 10)) q))"
  shows "153 / 2 \<le> c \<and> c \<le> 255"
proof -
  let ?d3 = "5404319552844595 / 2 ^ 54 :: rat"
  let ?d7 = "3152519739159347 / 2 ^ 52 :: rat"
  define a where "a = fl (?d7 * q)"
  define b where "b = fl (?d3 + a)"
  have d7: "fl ?d7 = ?d7" using fl_exact[of 3152519739159347 52] by simp
  have d3: "fl ?d3 = ?d3" using fl_exact[of 5404319552844595 54] by simp
  have "0 \<le> ?d7 * q" "?d7 * q \<le> ?d7" using assms(1,2) by simp_all
  then have a: "0 \<le> a" "a \<le> ?d7"
    using fl_mono[of 0 "?d7 * q"] fl_mono[of "?d7 * q" ?d7] unfolding a_def d7 fl_zero by auto
  have "?d3 \<le> ?d3 + a" "?d3 + a \<le> ?d3 + ?d7" using a by simp_all
  then have b: "?d3 \<le> b" "b \<le> 1"
    using fl_mono[of ?d3 "?d3 + a"] fl_mono[of "?d3 + a" "?d3 + ?d7"]
    unfolding b_def d3 fl_03_plus_07 by auto
  have "255 * ?d3 \<le> 255 * b" "255 * b \<le> 255" using b by simp_all
  then have "fl (255 * ?d3) \<le> fl (255 * b)" "fl (255 * b) \<le> fl 255"
    by (auto intro: fl_mono)
  moreover have "fl 255 = (255::rat)" using fl_of_int[of 255] by simp
  ultimately have "153 / 2 \<le> fl (255 * b)" "fl (255 * b) \<le> 255"
    unfolding fl_255_times_03 by simp_all
  moreover have "c = fl (255 * b)"
    unfolding c_def b_def a_def fmul_def fadd_def lit_03 lit_07
    using float_of_int_small[of 255] by simp
  ultimately show ?thesis by simp
qed

lemma soc_fill_width_eq:
  assumes "0 \<le> s" "s \<le> 100"
  shows "soc_fill_width s = Inr \<lfloor>fl (fl (of_int s / 100) * 200)\<rfloor>
       \<and> 0 \<le> fl (fl (of_int s / 100) * 200) \<and> fl (fl (of_int s / 100) * 200) \<le> 200"
proof -
  let ?q = "fl (rat_of_int s / 100)"
  from py_truediv_fraction[of s 100] assms
  have d: "py_truediv s 100 = Inr ?q" and q: "0 \<le> ?q" "?q \<le> 1" by auto
  have "0 \<le> ?q * 200" "?q * 200 \<le> 200" using q by simp_all
  then have "fl 0 \<le> fl (?q * 200)" "fl (?q * 200) \<le> fl 200" by (auto intro: fl_mono)
  moreover have "fl 200 = (200::rat)" using fl_of_int[of 200] by simp
  ultimately have r: "0 \<le> fl (?q * 200)" "fl (?q * 200) \<le> 200" by (simp_all add: fl_zero)
  have "float_of_int 200 = 200" using float_of_int_small[of 200] by simp
  then show ?thesis
    using r by (simp add: soc_fill_width_def bindE_def d fmul_def py_int_floor)
qed

lemma soc_fill_width_mono:
  assumes "0 \<le> s" "s \<le> s'" "s' \<le> 100"
    and "soc_fill_width s = Inr w" "soc_fill_width s' = Inr w'"
  shows "w \<le> w'"
proof -
  have "rat_of_int s / 100 \<le> of_int s' / 100" using assms(2) by simp
  then have "fl (of_int s / 100) * 200 \<le> fl (of_int s' / 100) * 200"
    by (simp add: fl_mono)
  then have "\<lfloor>fl (fl (of_int s / 100) * 200)\<rfloor> \<le> \<lfloor>fl (fl (of_int s' / 100) * 200)\<rfloor>"
    by (intro floor_mono fl_mono)
  moreover have "w = \<lfloor>fl (fl (of_int s / 100) * 200)\<rfloor>"
    using soc_fill_width_eq[of s] assms by simp
  moreover have "w' = \<lfloor>fl (fl (of_int s' / 100) * 200)\<rfloor>"
    using soc_fill_width_eq[of s'] assms by simp
  ultimately show ?thesis by simp
qed

lemma soc_fill_width_ends: "soc_fill_width 0 = Inr 0" "soc_fill_width 100 = Inr 200"
proof -
  have "fl 200 = (200::rat)" using fl_of_int[of 200] by simp
  then show "soc_fill_width 0 = Inr 0" "soc_fill_width 100 = Inr 200"
    using soc_fill_width_eq[of 0] soc_fill_width_eq[of 100] by (simp_all add: fl_zero fl_one)
qed

lemma speed_angle_floor:
  assumes "0 \<le> v" "v \<le> 80"
  shows "speed_angle v = Inr ((270 * v) div 80)"
proof -
  have d: "py_truediv (270 * v) 80 = Inr (fl (of_int (270 * v) / of_int 80))"
    using assms by (intro py_truediv_small) auto
  have "rat_of_int (270 * v) / of_int 80 = of_int (27 * v) / 2 ^ 3" by simp
  moreover have "fl (of_int (27 * v) / 2 ^ 3) = of_int (27 * v) / 2 ^ 3"
    using assms by (intro fl_exact) auto
  ultimately have e: "fl (of_int (270 * v) / of_int 80) = of_int (270 * v) / of_int 80"
    by simp
  have "0 \<le> rat_of_int (270 * v) / of_int 80" using assms by simp
  then have "py_int (of_int (270 * v) / of_int 80) = (270 * v) div 80"
    unfolding py_int_def by (simp only: if_True floor_divide_of_int_eq)
  then show ?thesis
    unfolding speed_angle_def SPEED_MAX_def bindE_def d e by simp
qed

lemma speed_angle_mono:
  assumes "0 \<le> v" "v \<le> v'" "v' \<le> 80"
    and "speed_angle v = Inr a" "speed_angle v' = Inr a'"
  shows "a \<le> a'"
proof -
  have "a = (270 * v) div 80" "a' = (270 * v') div 80"
    using speed_angle_floor[of v] speed_angle_floor[of v'] assms by simp_all
  then show ?thesis using assms(2) by (simp add: zdiv_mono1)
qed

lemma speed_angle_ends: "speed_angle 0 = Inr 0" "speed_angle 80 = Inr 270"
  using speed_angle_floor[of 0] speed_angle_floor[of 80] by simp_all

lemma fl_029: "fl (29 / 100) = 5224175567749775 / 2 ^ 54"
proof -
  have "fl (29 / 100) = of_int 5224175567749775 * 2 powi (- 54)"
    by (rule fl_near[where e = "- 2"]) (simp_all add: power_int_minus_divide)
  then show ?thesis by (simp add: power_int_minus_divide)
qed

lemma fl_029_times_200: "fl (5224175567749775 / 2 ^ 54 * 200) = 8162774324609023 / 2 ^ 47"
proof -
  have "fl (5224175567749775 / 2 ^ 54 * 200) = of_int 8162774324609023 * 2 powi (- 47)"
    by (rule fl_near[where e = 5]) (simp_all add: power_int_minus_divide)
  then show ?thesis by (simp add: power_int_minus_divide)
qed

lemma mapE_Inr:
  assumes "\<forall>x\<in>set xs. \<exists>y. f x = Inr y"
  shows "\<exists>ys. mapE f xs = Inr ys \<and> length ys = length xs
             \<and> (\<forall>i<length xs. f (xs ! i) = Inr (ys ! i))"
  using assms
proof (induction xs)
  case Nil
  then show ?case by simp
next
  case (Cons x xs)
  then obtain y where y: "f x = Inr y" by auto
  from Cons obtain ys where ys: "mapE f xs = Inr ys" "length ys = length xs"
    "\<forall>i<length xs. f (xs ! i) = Inr (ys ! i)" by auto
  have "\<forall>i<length (x # xs). f ((x # xs) ! i) = Inr ((y # ys) ! i)"
    using y ys(3) by (auto simp: nth_Cons split: nat.splits)
  then show ?case using y ys(1,2) by (simp add: bindE_def)
qed

lemma mapE_Inl_hd: "f x = Inl e \<Longrightarrow> mapE f (x # xs) = Inl e"
  by (simp add: bindE_def)

lemma brightness_ok:
  assumes "2 \<le> frames" "0 \<le> frame" "frame < frames"
  shows "\<exists>b. brightness frame frames = Inr b \<and> 76 \<le> b \<and> b \<le> 255"
proof -
  from py_truediv_fraction[of frame "frames - 1"] assms
  obtain q where q: "py_truediv frame (frames - 1) = Inr q" "0 \<le> q" "q \<le> 1" by auto
  define c where
    "c = fmul (float_of_int 255) (fadd (float_lit (3 / 10)) (fmul (float_lit (7 / 10)) q))"
  from brightness_range[OF q(2,3)] have c: "153 / 2 \<le> c" "c \<le> 255" by (simp_all add: c_def)
  have "0 \<le> c" using c(1) by simp
  then have p: "py_int c = \<lfloor>c\<rfloor>" by (rule py_int_floor)
  have "76 \<le> \<lfloor>c\<rfloor>" using c(1) by (simp add: le_floor_iff)
  moreover have "\<lfloor>c\<rfloor> \<le> 255" using c(2) by (simp add: floor_le_iff)
  moreover have "brightness frame frames = Inr (py_int c)"
    by (simp add: brightness_def bindE_def q(1) c_def)
  ultimately show ?thesis using p by simp
qed

lemma indicator_animated_frames:
  assumes "2 \<le> frames"
  shows "\<exists>imgs. indicator_animated direction frames = Inr imgs \<and> length imgs = nat frames
           \<and> (\<forall>i<nat frames. \<exists>b.
                 brightness (int i) frames = Inr b \<and> 76 \<le> b \<and> b \<le> 255
                 \<and> img_size (imgs ! i) = (140, 100)
                 \<and> img_ops (imgs ! i) =
                     [Polygon (if direction = ''left'' then left_pts else right_pts)
                        (Some [0, b, py_int (fmul (float_of_int b) (float_lit (6 / 10)))]) (Some WHITE) 2])"
proof -
  let ?f = "indicator_image direction frames"
  have ok: "\<exists>b. brightness frame frames = Inr b \<and> 76 \<le> b \<and> b \<le> 255
            \<and> ?f frame = Inr (draws (Image_new ''RGB'' (140, 100) BG)
                 [Polygon (if direction = ''left'' then left_pts else right_pts)
                    (Some [0, b, py_int (fmul (float_of_int b) (float_lit (6 / 10)))]) (Some WHITE) 2])"
    if "0 \<le> frame" "frame < frames" for frame
  proof -
    from brightness_ok[OF assms that] obtain b where
      b: "brightness frame frames = Inr b" "76 \<le> b" "b \<le> 255" by auto
    then show ?thesis by (simp add: indicator_image_def bindE_def Let_def)
  qed
  then have "\<forall>x\<in>set [0..frames - 1]. \<exists>y. ?f x = Inr y" by fastforce
  from mapE_Inr[OF this] obtain imgs where
    imgs: "mapE ?f [0..frames - 1] = Inr imgs" "length imgs = length [0..frames - 1]"
      "\<forall>i<length [0..frames - 1]. ?f ([0..frames - 1] ! i) = Inr (imgs ! i)" by auto
  have len: "length [0..frames - 1] = nat frames" using assms by simp
  have "\<exists>b. brightness (int i) frames = Inr b \<and> 76 \<le> b \<and> b \<le> 255
          \<and> img_size (imgs ! i) = (140, 100)
          \<and> img_ops (imgs ! i) =
              [Polygon (if direction = ''left'' then left_pts else right_pts)
                 (Some [0, b, py_int (fmul (float_of_int b) (float_lit (6 / 10)))]) (Some WHITE) 2]" if "i < nat frames" for i
  proof -
    have n: "[0..frames - 1] ! i = int i" using that by simp
    from that have r: "0 \<le> int i" "int i < frames" by auto
    from ok[OF r] obtain b where
      bg: "brightness (int i) frames = Inr b" "76 \<le> b" "b \<le> 255"
        "?f (int i) = Inr (draws (Image_new ''RGB'' (140, 100) BG)
                 [Polygon (if direction = ''left'' then left_pts else right_pts)
                    (Some [0, b, py_int (fmul (float_of_int b) (float_lit (6 / 10)))]) (Some WHITE) 2])" by blast
    from imgs(3) that len n have "?f (int i) = Inr (imgs ! i)" by auto
    with bg(4) have "imgs ! i = draws (Image_new ''RGB'' (140, 100) BG)
                 [Polygon (if direction = ''left'' then left_pts else right_pts)
                    (Some [0, b, py_int (fmul (float_of_int b) (float_lit (6 / 10)))]) (Some WHITE) 2]" by simp
    then show ?thesis using bg(1-3) by (auto simp: draws_def Image_new_def)
  qed
  then show ?thesis using imgs(1,2) len by (simp add: indicator_animated_def)
qed

lemma brightness_ends: "brightness 0 3 = Inr 76" "brightness 2 3 = Inr 255"
proof -
  have d0: "py_truediv 0 2 = Inr 0" by (simp add: py_truediv_def fl_zero)
  have d1: "py_truediv 2 2 = Inr 1" by (simp add: py_truediv_def fl_one)
  have f255: "float_of_int 255 = 255" using float_of_int_small[of 255] by simp
  have d3: "fl (5404319552844595 / 2 ^ 54) = 5404319552844595 / 2 ^ 54"
    using fl_exact[of 5404319552844595 54] by simp
  have d7: "fl (3152519739159347 / 2 ^ 52) = 3152519739159347 / 2 ^ 52"
    using fl_exact[of 3152519739159347 52] by simp
  have "fl 255 = (255::rat)" using fl_of_int[of 255] by simp
  then have c1: "fmul 255 (fadd (float_lit (3 / 10)) (fmul (float_lit (7 / 10)) 1)) = 255"
    unfolding fmul_def fadd_def lit_03 lit_07 by (simp only: mult_1_right d7 fl_03_plus_07)
  have c0: "fmul 255 (fadd (float_lit (3 / 10)) (fmul (float_lit (7 / 10)) 0)) = 153 / 2"
    unfolding fmul_def fadd_def lit_03 lit_07
    by (simp only: mult_zero_right fl_zero add_0_right d3 fl_255_times_03)
  have "\<lfloor>153 / 2 :: rat\<rfloor> = 76" by (simp add: floor_eq_iff)
  then have "py_int (153 / 2) = 76" by (simp add: py_int_def)
  then show "brightness 0 3 = Inr 76"
    using d0 by (simp add: brightness_def bindE_def f255 c0)
  show "brightness 2 3 = Inr 255"
    using d1 by (simp add: brightness_def bindE_def f255 c1 py_int_def)
qed

section \<open>Writing to the console and creating directories\<close>

lemma is_ascii_Nil [simp]: "is_ascii []"
  by (simp add: is_ascii_def)

lemma is_ascii_Cons [simp]: "is_ascii (c # s) \<longleftrightarrow> \<not> digit7 c \<and> is_ascii s"
  by (simp add: is_ascii_def)

lemma is_ascii_append [simp]: "is_ascii (a @ b) \<longleftrightarrow> is_ascii a \<and> is_ascii b"
  by (simp add: is_ascii_def)

lemma is_ascii_replicate [simp]: "\<not> digit7 c \<Longrightarrow> is_ascii (replicate n c)"
  by (induction n) simp_all

lemma digit_chars_ascii: "n < 10 \<Longrightarrow> \<not> digit7 (digit_chars ! n)"
proof -
  assume "n < 10"
  then have "n \<in> {0, 1, 2, 3, 4, 5, 6, 7, 8, 9}" by auto
  then show ?thesis by (auto simp: digit_chars_def)
qed

lemma is_ascii_str_nat [simp]: "is_ascii (str_nat n)"
proof (induction n rule: str_nat.induct)
  case (1 n)
  show ?case
  proof (cases "n < 10")
    case True
    then show ?thesis by (subst str_nat.simps) (simp add: digit_chars_ascii)
  next
    case False
    then have "is_ascii (str_nat (n div 10))" using 1 by simp
    moreover have "\<not> digit7 (digit_chars ! (n mod 10))" by (rule digit_chars_ascii) simp
    ultimately show ?thesis using False by (subst str_nat.simps) simp
  qed
qed

lemma is_ascii_str [simp]: "is_ascii (str i)"
  by (simp add: str_def)

lemma pictographs_not_ascii [simp]:
  "\<not> is_ascii CHECK_MARK" "\<not> is_ascii CROSS_MARK" "\<not> is_ascii WHITE_HEAVY_CHECK_MARK"
  "\<not> is_ascii FILE_FOLDER" "\<not> is_ascii PACKAGE" "\<not> is_ascii ARTIST_PALETTE"
  "\<not> is_ascii BULLET" "\<not> is_ascii WARNING_SIGN"
  by (simp_all add: CHECK_MARK_def CROSS_MARK_def WHITE_HEAVY_CHECK_MARK_def FILE_FOLDER_def
        PACKAGE_def ARTIST_PALETTE_def BULLET_def WARNING_SIGN_def)


lemma py_print_encoded:
  "encode_error en s = None \<Longrightarrow> py_print en s w = (Inr (), w\<lparr>stdout := stdout w @ [s]\<rparr>)"
  by (simp add: py_print_def)




section \<open>Control flow of \<^verbatim>\<open>try.py\<close>\<close>

lemma bindP_Inr: "m w = (Inr x, w') \<Longrightarrow> bindP m f w = f x w'"
  by (simp add: bindP_def)

lemma bindP_Inl: "m w = (Inl e, w') \<Longrightarrow> bindP m f w = (Inl e, w')"
  by (simp add: bindP_def)

lemma try_except_Inr: "m w = (Inr x, w') \<Longrightarrow> try_except m h w = (Inr x, w')"
  by (simp add: try_except_def)

lemma try_except_Inl: "m w = (Inl e, w') \<Longrightarrow> try_except m h w = h e w'"
  by (simp add: try_except_def)

lemmas prog_defs = bindP_def returnP_def raiseP_def liftE_def try_except_def for_each_def
  print_stderr_def save_def










lemma program_of_main:
  "main en w = (Inr n, w') \<Longrightarrow> program en w = (Exit n, w')"
  "main en w = (Inl e, w') \<Longrightarrow> program en w = (Uncaught e, w')"
  by (simp_all add: program_def)













section \<open>Frame numbers\<close>

lemma digit_char_val: "n < 10 \<Longrightarrow> of_char (digit_chars ! n) - 48 = n"
proof -
  assume "n < 10"
  then have "n \<in> {0, 1, 2, 3, 4, 5, 6, 7, 8, 9}" by auto
  then show ?thesis by (auto simp: digit_chars_def)
qed

lemma nat_of_digits_snoc:
  "nat_of_digits (s @ [c]) = 10 * nat_of_digits s + (of_char c - 48)"
  by (simp add: nat_of_digits_def)

lemma nat_of_digits_str_nat: "nat_of_digits (str_nat n) = n"
proof (induction n rule: str_nat.induct)
  case (1 n)
  show ?case
  proof (cases "n < 10")
    case True
    then show ?thesis
      using digit_char_val[of n] by (subst str_nat.simps) (simp add: nat_of_digits_def)
  next
    case False
    then have "nat_of_digits (str_nat (n div 10)) = n div 10" using 1 by simp
    moreover have "of_char (digit_chars ! (n mod 10)) - 48 = n mod 10"
      by (rule digit_char_val) simp
    ultimately show ?thesis
      using False by (subst str_nat.simps) (simp add: nat_of_digits_snoc)
  qed
qed

lemma nat_of_digits_zeros: "nat_of_digits (replicate k CHR ''0'' @ s) = nat_of_digits s"
proof -
  have "foldl (\<lambda>a c. 10 * a + (of_char c - 48)) (0::nat) (replicate k CHR ''0'') = 0"
    by (induction k) simp_all
  then show ?thesis by (simp add: nat_of_digits_def)
qed

lemma nat_of_digits_format: "0 \<le> i \<Longrightarrow> nat_of_digits (format_0w w i) = nat i"
  by (simp add: format_0w_def zfill_def nat_of_digits_zeros nat_of_digits_str_nat)

lemma format_0w_inj: "0 \<le> i \<Longrightarrow> 0 \<le> j \<Longrightarrow> format_0w w i = format_0w w j \<Longrightarrow> i = j"
  using nat_of_digits_format[of i w] nat_of_digits_format[of j w] by simp

lemma str_nat_length: "n < 10 ^ k \<Longrightarrow> 0 < k \<Longrightarrow> length (str_nat n) \<le> k"
proof (induction n arbitrary: k rule: str_nat.induct)
  case (1 n)
  show ?case
  proof (cases "n < 10")
    case True
    then show ?thesis using 1(3) by (subst str_nat.simps) simp
  next
    case False
    then have k: "1 < k" using 1(2) by (cases k; cases "k - 1") auto
    then obtain k' where k': "k = Suc k'" "0 < k'" by (cases k) auto
    have "n div 10 < 10 ^ k'" using 1(2) k' by (simp add: less_mult_imp_div_less mult.commute)
    then have "length (str_nat (n div 10)) \<le> k'" using 1(1)[OF False _ k'(2)] by simp
    then show ?thesis using False k' by (subst str_nat.simps) simp
  qed
qed

lemma str_nat_nonempty: "str_nat n \<noteq> []"
  by (subst str_nat.simps) simp

lemma format_0w_length:
  assumes "0 \<le> i" "i < 10 ^ w" "0 < w"
  shows "length (format_0w w i) = w"
proof -
  have "nat i < 10 ^ w" using assms by (simp add: nat_less_iff)
  then have "length (str_nat (nat i)) \<le> w" using assms(3) by (rule str_nat_length)
  then show ?thesis using assms(1) by (simp add: format_0w_def zfill_def)
qed

lemma str_nat_digit: "n < 10 \<Longrightarrow> str_nat n = [digit_chars ! n]"
  by (subst str_nat.simps) simp

lemma str_nat_examples: "str_nat 0 = ''0''" "str_nat 80 = ''80''" "str_nat 16 = ''16''"
  "str_nat 100 = ''100''" "str_nat 150 = ''150''"
proof -
  have d: "str_nat 8 = ''8''" "str_nat (Suc 0) = ''1''"
    by (subst str_nat.simps, simp add: digit_chars_def)+
  have t: "str_nat 10 = ''10''" "str_nat 15 = ''15''"
    by (subst str_nat.simps, simp add: d digit_chars_def)+
  show "str_nat 0 = ''0''" by (simp add: str_nat_digit digit_chars_def)
  show "str_nat 80 = ''80''" by (subst str_nat.simps) (simp add: d digit_chars_def)
  show "str_nat 16 = ''16''" by (subst str_nat.simps) (simp add: d digit_chars_def)
  show "str_nat 100 = ''100''" by (subst str_nat.simps) (simp add: t digit_chars_def)
  show "str_nat 150 = ''150''" by (subst str_nat.simps) (simp add: t digit_chars_def)
qed

lemma format_examples: "format_0w 3 0 = ''000''" "format_0w 3 80 = ''080''"
  "format_0w 2 16 = ''16''" "format_0w 3 100 = ''100''" "format_0w 3 150 = ''150''"
  unfolding format_0w_def zfill_def
  by (simp_all add: str_nat_examples) (simp_all add: eval_nat_numeral)

lemma str_small: "str 0 = ''0''" "str 1 = ''1''" "str 2 = ''2''" "str 3 = ''3''"
  unfolding str_def by (simp_all, (subst str_nat.simps, simp add: digit_chars_def)+)


section \<open>What a completed run has written\<close>

lemma emits_returnP: "emits (returnP x) []"
  by (simp add: emits_def returnP_def sizes_def)

lemma emits_print: "emits (py_print en s) []"
  by (auto simp: emits_def py_print_def sizes_def split: option.splits if_splits)

lemma emits_makedirs: "emits (makedirs en p) []"
  by (auto simp: emits_def makedirs_def sizes_def split: option.splits)

lemma emits_save: "emits (save en im p) [(p, img_size im)]"
  by (auto simp: emits_def save_def sizes_def split: option.splits)

lemma emits_bindP:
  assumes "emits m a" "\<And>x. emits (f x) b"
  shows "emits (bindP m f) (a @ b)"
  unfolding emits_def
proof (intro allI impI)
  fix w y w'
  assume r: "bindP m f w = (Inr y, w')"
  obtain r1 w1 where m: "m w = (r1, w1)" by (cases "m w")
  show "\<exists>new. files w' = files w @ new \<and> sizes new = a @ b"
  proof (cases r1)
    case (Inl e)
    with m r show ?thesis by (simp add: bindP_def)
  next
    case (Inr x)
    with m r have f: "f x w1 = (Inr y, w')" by (simp add: bindP_def)
    from assms(1) m Inr obtain n1 where n1: "files w1 = files w @ n1" "sizes n1 = a"
      unfolding emits_def by blast
    from assms(2)[of x] f obtain n2 where n2: "files w' = files w1 @ n2" "sizes n2 = b"
      unfolding emits_def by blast
    from n1 n2 have "files w' = files w @ (n1 @ n2) \<and> sizes (n1 @ n2) = a @ b"
      by (simp add: sizes_def)
    then show ?thesis by blast
  qed
qed

lemma emits_seqP: "list_all2 emits ms outs \<Longrightarrow> emits (seqP ms) (concat outs)"
proof (induction ms outs rule: list_all2_induct)
  case Nil
  then show ?case by (simp add: emits_returnP)
next
  case (Cons m ms out outs)
  then show ?case using emits_bindP[of m out "\<lambda>_. seqP ms" "concat outs"] by simp
qed

lemma emits_for_each:
  assumes "\<And>x. x \<in> set xs \<Longrightarrow> emits (body x) [g x]"
  shows "emits (for_each xs body) (map g xs)"
proof -
  have "list_all2 emits (map body xs) (map (\<lambda>x. [g x]) xs)"
    using assms by (simp add: list_all2_conv_all_nth)
  from emits_seqP[OF this] show ?thesis by (simp add: for_each_def concat_map_singleton)
qed

lemma emits_silent_loop:
  assumes "\<And>x. emits (body x) []"
  shows "emits (for_each xs body) []"
proof -
  have l: "list_all2 emits (map body xs) (map (\<lambda>x. []) xs)"
    using assms by (simp add: list_all2_conv_all_nth)
  have c: "concat (map (\<lambda>x. []) xs) = ([] :: (string \<times> int \<times> int) list)"
    by (induction xs) simp_all
  from emits_seqP[OF l] show ?thesis unfolding c for_each_def .
qed

lemma emits_liftE:
  assumes "\<And>x. r = Inr x \<Longrightarrow> emits (f x) out"
  shows "emits (bindP (liftE r) f) out"
  using assms by (cases r) (auto simp: emits_def bindP_def liftE_def)

lemma emits_frame:
  assumes "\<And>img. r = Inr img \<Longrightarrow> img_size img = sz"
  shows "emits (bindP (liftE r) (\<lambda>img. save en img p)) [(p, sz)]"
proof (rule emits_liftE)
  fix x assume "r = Inr x"
  then have "img_size x = sz" by (rule assms)
  then show "emits (save en x p) [(p, sz)]" using emits_save[of en x p] by simp
qed

lemma emits_save_enumerated:
  "emits (save_enumerated en stem frames)
     (map (\<lambda>(i, fr). (stem @ str (int i) @ ''.png'', img_size fr)) (enumerate 0 frames))"
  unfolding save_enumerated_def
  by (rule emits_for_each) (auto simp: emits_save)

lemma draws_size: "img_size (draws (Image_new m sz c) ds) = sz"
  by (simp add: draws_def Image_new_def)

lemma speed_image_size: "speed_image en fs v = Inr img \<Longrightarrow> img_size img = (WIDTH, HEIGHT)"
  by (auto simp: speed_image_def bindE_def Let_def draws_size split: sum.splits)

lemma rpm_image_size: "rpm_image en fs i = Inr img \<Longrightarrow> img_size img = (WIDTH, HEIGHT)"
  by (auto simp: rpm_image_def bindE_def Let_def draws_size split: sum.splits)

lemma temp_image_size: "temp_image en fs t = Inr img \<Longrightarrow> img_size img = (80, 220)"
  by (auto simp: temp_image_def bindE_def Let_def draws_size split: sum.splits)

lemma soc_image_size: "soc_image en fs s = Inr img \<Longrightarrow> img_size img = (240, 80)"
  by (auto simp: soc_image_def bindE_def Let_def draws_size split: sum.splits)

lemma vi_image_size: "vi_image fs max_val u v = Inr img \<Longrightarrow> img_size img = (240, 70)"
  by (auto simp: vi_image_def bindE_def Let_def draws_size split: sum.splits)

lemma emits_speed:
  "emits (for_each [0..SPEED_MAX] (speed_frame en fs))
     (map (\<lambda>v. (speed_path v, (WIDTH, HEIGHT))) [0..SPEED_MAX])"
  unfolding speed_frame_def by (intro emits_for_each emits_frame speed_image_size)

lemma emits_rpm:
  "emits (for_each [0..16] (rpm_frame en fs)) (map (\<lambda>i. (rpm_path i, (WIDTH, HEIGHT))) [0..16])"
  unfolding rpm_frame_def by (intro emits_for_each emits_frame rpm_image_size)

lemma emits_temp:
  "emits (temp_bar_enhanced en fs folder label)
     (map (\<lambda>t. (temp_path folder t, (80, 220))) [0..100])"
  unfolding temp_bar_enhanced_def by (intro emits_for_each emits_frame temp_image_size)

lemma emits_soc:
  "emits (for_each [0..100] (soc_frame en fs)) (map (\<lambda>s. (soc_path s, (240, 80))) [0..100])"
  unfolding soc_frame_def by (intro emits_for_each emits_frame soc_image_size)

lemma emits_vi:
  "emits (vi_bar_enhanced en fs folder label max_val u)
     (map (\<lambda>v. (vi_path folder v, (240, 70))) [0..max_val])"
  unfolding vi_bar_enhanced_def by (intro emits_for_each emits_frame vi_image_size)

lemma upto_0_3: "[0..3] = [0, 1, 2, 3]"
  by (simp add: upto_rec1)

lemma charging_frames_emitted:
  "map (\<lambda>(i, fr). ((BASE_DIR @ ''/charging/charging_'') @ str (int i) @ ''.png'', img_size fr))
     (enumerate 0 (charging_icon_animated True))
   = map (\<lambda>n. (BASE_DIR @ ''/charging/'' @ n @ ''.png'', (100, 100)))
       [''charging_0'', ''charging_1'', ''charging_2'', ''charging_3'']"
  by (simp add: charging_icon_animated_def upto_0_3 charging_image_def draws_size str_small)

lemma emits_charging:
  "emits (save_enumerated en (BASE_DIR @ ''/charging/charging_'') (charging_icon_animated True))
     (map (\<lambda>n. (BASE_DIR @ ''/charging/'' @ n @ ''.png'', (100, 100)))
        [''charging_0'', ''charging_1'', ''charging_2'', ''charging_3''])"
  using emits_save_enumerated[of en "BASE_DIR @ ''/charging/charging_''"
      "charging_icon_animated True"]
  unfolding charging_frames_emitted .

lemma emits_discharging:
  "emits (save en (charging_icon_animated False ! 0) (BASE_DIR @ ''/charging/discharging.png''))
     [(BASE_DIR @ ''/charging/discharging.png'', (100, 100))]"
proof -
  have "img_size (charging_icon_animated False ! 0) = (100, 100)"
    by (simp add: charging_icon_animated_def upto_0_3 charging_image_def draws_size)
  then show ?thesis
    using emits_save[of en "charging_icon_animated False ! 0"] by simp
qed

lemma indicator_animated_three:
  assumes "indicator_animated direction 3 = Inr imgs"
  shows "\<exists>a b c. imgs = [a, b, c] \<and> img_size a = (140, 100) \<and> img_size b = (140, 100)
           \<and> img_size c = (140, 100)"
proof -
  from indicator_animated_frames[of 3 direction] assms
  have l: "length imgs = 3" and s: "\<forall>i<3. img_size (imgs ! i) = (140, 100)" by auto
  from l obtain a b c where abc: "imgs = [a, b, c]"
    by (auto simp: numeral_3_eq_3 length_Suc_conv)
  from s have "img_size (imgs ! 0) = (140, 100)" "img_size (imgs ! 1) = (140, 100)"
    "img_size (imgs ! 2) = (140, 100)" by simp_all
  then show ?thesis using abc by simp
qed

lemma emits_indicator:
  "emits (bindP (liftE (indicator_animated direction 3))
            (save_enumerated en (BASE_DIR @ ''/indicators/'' @ direction @ ''_'')))
     (map (\<lambda>n. (BASE_DIR @ ''/indicators/'' @ direction @ ''_'' @ n @ ''.png'', (140, 100)))
        [''0'', ''1'', ''2''])"
proof (rule emits_liftE)
  fix imgs assume "indicator_animated direction 3 = Inr imgs"
  from indicator_animated_three[OF this] obtain a b c where
    abc: "imgs = [a, b, c]" "img_size a = (140, 100)" "img_size b = (140, 100)"
      "img_size c = (140, 100)" by blast
  show "emits (save_enumerated en (BASE_DIR @ ''/indicators/'' @ direction @ ''_'') imgs)
     (map (\<lambda>n. (BASE_DIR @ ''/indicators/'' @ direction @ ''_'' @ n @ ''.png'', (140, 100)))
        [''0'', ''1'', ''2''])"
    using emits_save_enumerated[of en "BASE_DIR @ ''/indicators/'' @ direction @ ''_''" imgs]
    by (simp add: abc str_small)
qed

lemma emits_indicator_off:
  "emits (save en (indicator_off pts) p) [(p, (140, 100))]"
  using emits_save[of en "indicator_off pts" p] by (simp add: indicator_off_def draws_size)

lemma warning_image_size: "img_size (warning_image en fs item) = (100, 100)"
  by (cases item) (simp add: warning_image_def Let_def draws_size)

lemma emits_warnings:
  "emits (for_each warnings (\<lambda>item. save en (warning_image en fs item) (warning_path (fst item))))
     (map (\<lambda>n. (warning_path n, (100, 100)))
        [''battery_low'', ''overheat'', ''motor_fault'', ''brake'', ''abs''])"
proof -
  have "emits (for_each warnings
           (\<lambda>item. save en (warning_image en fs item) (warning_path (fst item))))
          (map (\<lambda>item. (warning_path (fst item), (100, 100))) warnings)"
  proof (rule emits_for_each)
    fix item
    show "emits (save en (warning_image en fs item) (warning_path (fst item)))
            [(warning_path (fst item), (100, 100))]"
      using emits_save[of en "warning_image en fs item" "warning_path (fst item)"]
      by (simp add: warning_image_size)
  qed
  then show ?thesis by (simp add: warnings_def)
qed

lemma emits_real2_sequence:
  "emits (real2 en)
     (concat
        [[], [],
         map (\<lambda>v. (speed_path v, (WIDTH, HEIGHT))) [0..SPEED_MAX], [],
         map (\<lambda>i. (rpm_path i, (WIDTH, HEIGHT))) [0..16], [],
         map (\<lambda>t. (temp_path ''temp_motor'' t, (80, 220))) [0..100],
         map (\<lambda>t. (temp_path ''temp_controller'' t, (80, 220))) [0..100],
         map (\<lambda>t. (temp_path ''temp_battery'' t, (80, 220))) [0..100], [],
         map (\<lambda>s. (soc_path s, (240, 80))) [0..100], [],
         map (\<lambda>v. (vi_path ''battery_vi'' v, (240, 70))) [0..100],
         map (\<lambda>v. (vi_path ''motor_vi'' v, (240, 70))) [0..150], [],
         map (\<lambda>n. (BASE_DIR @ ''/charging/'' @ n @ ''.png'', (100, 100)))
           [''charging_0'', ''charging_1'', ''charging_2'', ''charging_3''],
         [(BASE_DIR @ ''/charging/discharging.png'', (100, 100))], [],
         map (\<lambda>n. (BASE_DIR @ ''/indicators/'' @ ''left'' @ ''_'' @ n @ ''.png'', (140, 100)))
           [''0'', ''1'', ''2''],
         map (\<lambda>n. (BASE_DIR @ ''/indicators/'' @ ''right'' @ ''_'' @ n @ ''.png'', (140, 100)))
           [''0'', ''1'', ''2''],
         [(BASE_DIR @ ''/indicators/left_off.png'', (140, 100))],
         [(BASE_DIR @ ''/indicators/right_off.png'', (140, 100))], [],
         map (\<lambda>n. (warning_path n, (100, 100)))
           [''battery_low'', ''overheat'', ''motor_fault'', ''brake'', ''abs''],
         [], [], [], [], [], [], [], [], [], [], [], [], []])"
proof -
  have l: "emits (bindP (liftE (indicator_animated ''left'' 3))
                    (save_enumerated en (BASE_DIR @ ''/indicators/left_'')))
     (map (\<lambda>n. (BASE_DIR @ ''/indicators/'' @ ''left'' @ ''_'' @ n @ ''.png'', (140, 100)))
        [''0'', ''1'', ''2''])"
    using emits_indicator[of "''left''" en] by (simp del: upto_rec_numeral)
  have r: "emits (bindP (liftE (indicator_animated ''right'' 3))
                    (save_enumerated en (BASE_DIR @ ''/indicators/right_'')))
     (map (\<lambda>n. (BASE_DIR @ ''/indicators/'' @ ''right'' @ ''_'' @ n @ ''.png'', (140, 100)))
        [''0'', ''1'', ''2''])"
    using emits_indicator[of "''right''" en] by (simp del: upto_rec_numeral)
  show ?thesis
    unfolding real2_def Let_def
    apply (rule emits_seqP)
    apply (simp only: list_all2_Cons list_all2_Nil simp_thms)
    apply (intro conjI emits_print emits_speed emits_rpm emits_temp emits_soc emits_vi
        emits_charging emits_discharging l r emits_indicator_off emits_warnings
        emits_silent_loop emits_makedirs)
    done
qed

lemma real2_emits: "emits (real2 en) real2_manifest"
proof -
  have "real2_manifest = concat
        [[], [],
         map (\<lambda>v. (speed_path v, (WIDTH, HEIGHT))) [0..SPEED_MAX], [],
         map (\<lambda>i. (rpm_path i, (WIDTH, HEIGHT))) [0..16], [],
         map (\<lambda>t. (temp_path ''temp_motor'' t, (80, 220))) [0..100],
         map (\<lambda>t. (temp_path ''temp_controller'' t, (80, 220))) [0..100],
         map (\<lambda>t. (temp_path ''temp_battery'' t, (80, 220))) [0..100], [],
         map (\<lambda>s. (soc_path s, (240, 80))) [0..100], [],
         map (\<lambda>v. (vi_path ''battery_vi'' v, (240, 70))) [0..100],
         map (\<lambda>v. (vi_path ''motor_vi'' v, (240, 70))) [0..150], [],
         map (\<lambda>n. (BASE_DIR @ ''/charging/'' @ n @ ''.png'', (100, 100)))
           [''charging_0'', ''charging_1'', ''charging_2'', ''charging_3''],
         [(BASE_DIR @ ''/charging/discharging.png'', (100, 100))], [],
         map (\<lambda>n. (BASE_DIR @ ''/indicators/'' @ ''left'' @ ''_'' @ n @ ''.png'', (140, 100)))
           [''0'', ''1'', ''2''],
         map (\<lambda>n. (BASE_DIR @ ''/indicators/'' @ ''right'' @ ''_'' @ n @ ''.png'', (140, 100)))
           [''0'', ''1'', ''2''],
         [(BASE_DIR @ ''/indicators/left_off.png'', (140, 100))],
         [(BASE_DIR @ ''/indicators/right_off.png'', (140, 100))], [],
         map (\<lambda>n. (warning_path n, (100, 100)))
           [''battery_low'', ''overheat'', ''motor_fault'', ''brake'', ''abs''],
         [], [], [], [], [], [], [], [], [], [], [], [], []]"
    unfolding real2_manifest_def by (simp del: upto_rec_numeral)
  then show ?thesis using emits_real2_sequence[of en] by (simp only:)
qed

lemma real2_files:
  assumes "real2 en w = (Inr (), w')"
  shows "\<exists>new. files w' = files w @ new \<and> sizes new = real2_manifest"
  using real2_emits[of en] assms unfolding emits_def by blast

section \<open>Runs that complete\<close>

lemma completes_returnP: "completes (returnP x)"
  by (simp add: completes_def returnP_def)

lemma completes_print: "is_ascii s \<Longrightarrow> completes (py_print en s)"
  by (simp add: completes_def py_print_def)

lemma completes_makedirs: "mkdir_raises en p = None \<Longrightarrow> completes (makedirs en p)"
  by (simp add: completes_def makedirs_def)

lemma completes_save: "save_raises en p = None \<Longrightarrow> completes (save en im p)"
  by (simp add: completes_def save_def)

lemma completes_bindP:
  assumes "completes m" "\<And>x. completes (f x)"
  shows "completes (bindP m f)"
  unfolding completes_def
proof
  fix w
  from assms(1) obtain x w1 where m: "m w = (Inr x, w1)" unfolding completes_def by blast
  from assms(2)[of x] obtain y w2 where "f x w1 = (Inr y, w2)" unfolding completes_def by blast
  with m show "\<exists>y w'. bindP m f w = (Inr y, w')" by (simp add: bindP_def)
qed

lemma completes_seqP: "list_all completes ms \<Longrightarrow> completes (seqP ms)"
proof (induction ms)
  case Nil
  then show ?case by (simp add: completes_returnP)
next
  case (Cons m ms)
  then show ?case by (simp add: completes_bindP)
qed

lemma completes_for_each:
  assumes "\<And>x. x \<in> set xs \<Longrightarrow> completes (body x)"
  shows "completes (for_each xs body)"
  unfolding for_each_def using assms by (intro completes_seqP) (simp add: list_all_iff)

lemma completes_liftE:
  assumes "r = Inr x" "completes (f x)"
  shows "completes (bindP (liftE r) f)"
  using assms by (simp add: completes_def bindP_def liftE_def)

lemma completes_frame:
  assumes "\<exists>img. r = Inr img" "save_raises en p = None"
  shows "completes (bindP (liftE r) (\<lambda>img. save en img p))"
  using assms by (auto intro: completes_liftE completes_save)

lemma marker_line_ok:
  assumes "d \<noteq> 0" "\<bar>270 * m\<bar> \<le> 1000000 * \<bar>d\<bar>"
  shows "\<exists>l. marker_line m d = Inr l"
  using py_truediv_small[OF assms] by (simp add: marker_line_def bindE_def)

lemma speed_image_ok:
  assumes "0 \<le> v" "v \<le> 80"
  shows "\<exists>img. speed_image en fs v = Inr img"
proof -
  have "\<forall>m\<in>set [0, 20, 40, 60, SPEED_MAX]. \<exists>l. marker_line m SPEED_MAX = Inr l"
    by (auto simp: SPEED_MAX_def intro!: marker_line_ok)
  from mapE_Inr[OF this] obtain ms where
    "mapE (\<lambda>marker. marker_line marker SPEED_MAX) [0, 20, 40, 60, SPEED_MAX] = Inr ms" by blast
  then show ?thesis
    using speed_angle_floor[OF assms] by (simp add: speed_image_def bindE_def Let_def)
qed

lemma rpm_image_ok:
  assumes "0 \<le> i" "i \<le> 16"
  shows "\<exists>img. rpm_image en fs i = Inr img"
proof -
  have "\<forall>m\<in>set [0..8]. \<exists>l. marker_line m 16 = Inr l"
    by (auto intro!: marker_line_ok)
  from mapE_Inr[OF this] obtain ms where
    m: "mapE (\<lambda>marker. marker_line marker 16) [0..8] = Inr ms" by blast
  have "py_truediv (270 * i) 16 = Inr (fl (of_int (270 * i) / of_int 16))"
    using assms by (intro py_truediv_small) auto
  then show ?thesis
    using m by (simp add: rpm_image_def rpm_angle_def bindE_def Let_def del: upto_rec_numeral)
qed

lemma get_temp_color_ok:
  assumes "0 \<le> t" "t \<le> 100"
  shows "\<exists>c. get_temp_color t 100 = Inr c"
  using py_truediv_small[of 100 t] assms by (simp add: get_temp_color_def)

lemma temp_image_ok:
  assumes "0 \<le> t" "t \<le> 100"
  shows "\<exists>img. temp_image en fs t = Inr img"
proof -
  from get_temp_color_ok[OF assms] obtain c where c: "get_temp_color t 100 = Inr c" by blast
  have "py_truediv t 100 = Inr (fl (of_int t / of_int 100))"
    using assms by (intro py_truediv_small) auto
  then show ?thesis
    using c by (simp add: temp_image_def temp_fill_h_def bindE_def Let_def)
qed

lemma soc_image_ok:
  assumes "0 \<le> s" "s \<le> 100"
  shows "\<exists>img. soc_image en fs s = Inr img"
  using soc_fill_width_eq[OF assms] by (simp add: soc_image_def bindE_def Let_def)

lemma vi_image_ok:
  assumes "0 \<le> v" "v \<le> max_val" "0 < max_val"
  shows "\<exists>img. vi_image fs max_val u v = Inr img"
proof -
  have "py_truediv v max_val = Inr (fl (of_int v / of_int max_val))"
    using assms by (intro py_truediv_small) auto
  then show ?thesis by (simp add: vi_image_def vi_fill_width_def bindE_def Let_def)
qed

lemma real2_completes:
  assumes "\<And>p. save_raises en p = None" and mk: "\<And>p. mkdir_raises en p = None"
  shows "completes (real2 en)"
proof -
  have ind: "completes (bindP (liftE (indicator_animated d 3)) (save_enumerated en stem))"
    for d stem
  proof -
    from indicator_animated_frames[of 3 d] obtain imgs where
      "indicator_animated d 3 = Inr imgs" by auto
    moreover have "completes (save_enumerated en stem imgs)"
      unfolding save_enumerated_def
      by (rule completes_for_each) (auto intro: completes_save assms(1))
    ultimately show ?thesis by (rule completes_liftE)
  qed
  show ?thesis
    unfolding real2_def Let_def temp_bar_enhanced_def vi_bar_enhanced_def save_enumerated_def
      speed_frame_def rpm_frame_def soc_frame_def
    apply (rule completes_seqP)
    apply (simp only: list.pred_inject simp_thms)
    apply (intro conjI completes_print completes_for_each completes_makedirs completes_frame
        completes_save assms speed_image_ok rpm_image_ok temp_image_ok soc_image_ok vi_image_ok
        ind[unfolded save_enumerated_def])
                        apply (simp_all add: SPEED_MAX_def BASE_DIR_def split_beta completes_save
                                 completes_makedirs assms)
    done
qed

lemma real2_run:
  assumes "\<And>p. save_raises en p = None" "\<And>p. mkdir_raises en p = None"
  shows "real2 en w = (Inr (), snd (real2 en w))"
proof -
  from real2_completes[OF assms] obtain x w' where "real2 en w = (Inr x, w')"
    unfolding completes_def by blast
  then show ?thesis by simp
qed

section \<open>The files of \<^verbatim>\<open>real2.py\<close>\<close>

lemma manifest_paths:
  "map fst real2_manifest =
     map speed_path [0..SPEED_MAX] @ map rpm_path [0..16]
     @ map (temp_path ''temp_motor'') [0..100] @ map (temp_path ''temp_controller'') [0..100]
     @ map (temp_path ''temp_battery'') [0..100] @ map soc_path [0..100]
     @ map (vi_path ''battery_vi'') [0..100] @ map (vi_path ''motor_vi'') [0..150]
     @ [''dgus_assets/charging/charging_0.png'', ''dgus_assets/charging/charging_1.png'',
        ''dgus_assets/charging/charging_2.png'', ''dgus_assets/charging/charging_3.png'',
        ''dgus_assets/charging/discharging.png'',
        ''dgus_assets/indicators/left_0.png'', ''dgus_assets/indicators/left_1.png'',
        ''dgus_assets/indicators/left_2.png'', ''dgus_assets/indicators/right_0.png'',
        ''dgus_assets/indicators/right_1.png'', ''dgus_assets/indicators/right_2.png'',
        ''dgus_assets/indicators/left_off.png'', ''dgus_assets/indicators/right_off.png'',
        ''dgus_assets/warnings/battery_low.png'', ''dgus_assets/warnings/overheat.png'',
        ''dgus_assets/warnings/motor_fault.png'', ''dgus_assets/warnings/brake.png'',
        ''dgus_assets/warnings/abs.png'']"
  unfolding real2_manifest_def
  by (simp add: comp_def BASE_DIR_def warning_path_def del: upto_rec_numeral)

lemmas path_defs = speed_path_def rpm_path_def temp_path_def soc_path_def vi_path_def

lemma prefix_sep:
  assumes "c \<notin> set f" "c \<notin> set g"
  shows "prefix (f @ [c]) (g @ c # r) \<longleftrightarrow> f = g"
  using assms
proof (induction f arbitrary: g)
  case Nil
  then show ?case by (cases g) auto
next
  case (Cons a f)
  then show ?case by (cases g) auto
qed

lemma in_folder_path:
  assumes "CHR ''/'' \<notin> set f" "CHR ''/'' \<notin> set g"
  shows "in_folder f (BASE_DIR @ ''/'' @ g @ ''/'' @ r) \<longleftrightarrow> f = g"
  using prefix_sep[OF assms, of r] by (simp add: in_folder_def)

lemma in_folder_paths:
  assumes "CHR ''/'' \<notin> set f"
  shows "in_folder f (speed_path v) \<longleftrightarrow> f = ''speed''"
    and "in_folder f (rpm_path v) \<longleftrightarrow> f = ''rpm''"
    and "in_folder f (soc_path v) \<longleftrightarrow> f = ''soc''"
    and "CHR ''/'' \<notin> set g \<Longrightarrow> in_folder f (temp_path g v) \<longleftrightarrow> f = g"
    and "CHR ''/'' \<notin> set g \<Longrightarrow> in_folder f (vi_path g v) \<longleftrightarrow> f = g"
proof -
  show "in_folder f (speed_path v) \<longleftrightarrow> f = ''speed''"
    using in_folder_path[OF assms, of "''speed''"] by (simp add: speed_path_def)
  show "in_folder f (rpm_path v) \<longleftrightarrow> f = ''rpm''"
    using in_folder_path[OF assms, of "''rpm''"] by (simp add: rpm_path_def)
  show "in_folder f (soc_path v) \<longleftrightarrow> f = ''soc''"
    using in_folder_path[OF assms, of "''soc''"] by (simp add: soc_path_def)
  show "in_folder f (temp_path g v) \<longleftrightarrow> f = g" if "CHR ''/'' \<notin> set g"
    using in_folder_path[OF assms that] by (simp add: temp_path_def)
  show "in_folder f (vi_path g v) \<longleftrightarrow> f = g" if "CHR ''/'' \<notin> set g"
    using in_folder_path[OF assms that] by (simp add: vi_path_def)
qed

lemma in_folder_literal:
  assumes "CHR ''/'' \<notin> set f"
  shows "in_folder f (''dgus_assets/charging/'' @ r) \<longleftrightarrow> f = ''charging''"
    and "in_folder f (''dgus_assets/indicators/'' @ r) \<longleftrightarrow> f = ''indicators''"
    and "in_folder f (''dgus_assets/warnings/'' @ r) \<longleftrightarrow> f = ''warnings''"
  using in_folder_path[OF assms, of "''charging''" r] in_folder_path[OF assms, of "''indicators''" r]
    in_folder_path[OF assms, of "''warnings''" r]
  by (simp_all add: BASE_DIR_def)

lemma filter_map_if:
  "filter P (map f xs) = (if c then map f xs else [])" if "\<And>x. P (f x) \<longleftrightarrow> c"
  using that by (induction xs) auto

lemma paths_inj:
  "inj_on speed_path {0..}" "inj_on rpm_path {0..}" "inj_on (temp_path f) {0..}"
  "inj_on soc_path {0..}" "inj_on (vi_path f) {0..}"
  by (auto simp: inj_on_def path_defs dest: format_0w_inj)

lemma distinct_frames: "inj_on f {0..} \<Longrightarrow> 0 \<le> i \<Longrightarrow> distinct (map f [i..j])"
  by (auto simp: distinct_map intro: inj_on_subset)

lemma distinct_append_folder:
  assumes "distinct xs" "distinct ys" "\<forall>x\<in>set xs. in_folder f x" "\<forall>y\<in>set ys. \<not> in_folder f y"
  shows "distinct (xs @ ys)"
  using assms by auto

lemma filter_speed:
  "filter (in_folder ''speed'') (map fst real2_manifest) = map speed_path [0..SPEED_MAX]"
  unfolding manifest_paths
  by (simp add: filter_map_if[where c = True] filter_map_if[where c = False]
       in_folder_paths in_folder_def[of _ "_ # _"] BASE_DIR_def del: upto_rec_numeral)

lemma filter_folders:
  "filter (in_folder ''rpm'') (map fst real2_manifest) = map rpm_path [0..16]"
  "filter (in_folder ''temp_motor'') (map fst real2_manifest)
     = map (temp_path ''temp_motor'') [0..100]"
  "filter (in_folder ''temp_controller'') (map fst real2_manifest)
     = map (temp_path ''temp_controller'') [0..100]"
  "filter (in_folder ''temp_battery'') (map fst real2_manifest)
     = map (temp_path ''temp_battery'') [0..100]"
  "filter (in_folder ''soc'') (map fst real2_manifest) = map soc_path [0..100]"
  "filter (in_folder ''battery_vi'') (map fst real2_manifest)
     = map (vi_path ''battery_vi'') [0..100]"
  "filter (in_folder ''motor_vi'') (map fst real2_manifest)
     = map (vi_path ''motor_vi'') [0..150]"
  "filter (in_folder ''charging'') (map fst real2_manifest)
     = [''dgus_assets/charging/charging_0.png'', ''dgus_assets/charging/charging_1.png'',
        ''dgus_assets/charging/charging_2.png'', ''dgus_assets/charging/charging_3.png'',
        ''dgus_assets/charging/discharging.png'']"
  "filter (in_folder ''indicators'') (map fst real2_manifest)
     = [''dgus_assets/indicators/left_0.png'', ''dgus_assets/indicators/left_1.png'',
        ''dgus_assets/indicators/left_2.png'', ''dgus_assets/indicators/right_0.png'',
        ''dgus_assets/indicators/right_1.png'', ''dgus_assets/indicators/right_2.png'',
        ''dgus_assets/indicators/left_off.png'', ''dgus_assets/indicators/right_off.png'']"
  "filter (in_folder ''warnings'') (map fst real2_manifest)
     = [''dgus_assets/warnings/battery_low.png'', ''dgus_assets/warnings/overheat.png'',
        ''dgus_assets/warnings/motor_fault.png'', ''dgus_assets/warnings/brake.png'',
        ''dgus_assets/warnings/abs.png'']"
  unfolding manifest_paths
  by (simp_all add: filter_map_if[where c = True] filter_map_if[where c = False]
       in_folder_paths in_folder_def[of _ "_ # _"] BASE_DIR_def del: upto_rec_numeral)

lemma manifest_distinct: "distinct (map fst real2_manifest)"
proof -
  let ?E = "[''dgus_assets/charging/charging_0.png'', ''dgus_assets/charging/charging_1.png'',
        ''dgus_assets/charging/charging_2.png'', ''dgus_assets/charging/charging_3.png'',
        ''dgus_assets/charging/discharging.png'',
        ''dgus_assets/indicators/left_0.png'', ''dgus_assets/indicators/left_1.png'',
        ''dgus_assets/indicators/left_2.png'', ''dgus_assets/indicators/right_0.png'',
        ''dgus_assets/indicators/right_1.png'', ''dgus_assets/indicators/right_2.png'',
        ''dgus_assets/indicators/left_off.png'', ''dgus_assets/indicators/right_off.png'',
        ''dgus_assets/warnings/battery_low.png'', ''dgus_assets/warnings/overheat.png'',
        ''dgus_assets/warnings/motor_fault.png'', ''dgus_assets/warnings/brake.png'',
        ''dgus_assets/warnings/abs.png'']"
  note s = in_folder_paths in_folder_def[of _ "_ # _"] BASE_DIR_def distinct_frames paths_inj
    ball_Un
  have e: "distinct ?E" by simp
  have 8: "distinct (map (vi_path ''motor_vi'') [0..150] @ ?E)"
    by (rule distinct_append_folder[where f = "''motor_vi''", OF _ e])
       (simp_all add: s del: upto_rec_numeral)
  have 7: "distinct (map (vi_path ''battery_vi'') [0..100] @ map (vi_path ''motor_vi'') [0..150]
             @ ?E)"
    by (rule distinct_append_folder[where f = "''battery_vi''", OF _ 8])
       (simp_all add: s del: upto_rec_numeral)
  have 6: "distinct (map soc_path [0..100] @ map (vi_path ''battery_vi'') [0..100]
             @ map (vi_path ''motor_vi'') [0..150] @ ?E)"
    by (rule distinct_append_folder[where f = "''soc''", OF _ 7])
       (simp_all add: s del: upto_rec_numeral)
  have 5: "distinct (map (temp_path ''temp_battery'') [0..100] @ map soc_path [0..100]
             @ map (vi_path ''battery_vi'') [0..100] @ map (vi_path ''motor_vi'') [0..150] @ ?E)"
    by (rule distinct_append_folder[where f = "''temp_battery''", OF _ 6])
       (simp_all add: s del: upto_rec_numeral)
  have 4: "distinct (map (temp_path ''temp_controller'') [0..100]
             @ map (temp_path ''temp_battery'') [0..100] @ map soc_path [0..100]
             @ map (vi_path ''battery_vi'') [0..100] @ map (vi_path ''motor_vi'') [0..150] @ ?E)"
    by (rule distinct_append_folder[where f = "''temp_controller''", OF _ 5])
       (simp_all add: s del: upto_rec_numeral)
  have 3: "distinct (map (temp_path ''temp_motor'') [0..100]
             @ map (temp_path ''temp_controller'') [0..100]
             @ map (temp_path ''temp_battery'') [0..100] @ map soc_path [0..100]
             @ map (vi_path ''battery_vi'') [0..100] @ map (vi_path ''motor_vi'') [0..150] @ ?E)"
    by (rule distinct_append_folder[where f = "''temp_motor''", OF _ 4])
       (simp_all add: s del: upto_rec_numeral)
  have 2: "distinct (map rpm_path [0..16] @ map (temp_path ''temp_motor'') [0..100]
             @ map (temp_path ''temp_controller'') [0..100]
             @ map (temp_path ''temp_battery'') [0..100] @ map soc_path [0..100]
             @ map (vi_path ''battery_vi'') [0..100] @ map (vi_path ''motor_vi'') [0..150] @ ?E)"
    by (rule distinct_append_folder[where f = "''rpm''", OF _ 3])
       (simp_all add: s del: upto_rec_numeral)
  have 1: "distinct (map speed_path [0..SPEED_MAX] @ map rpm_path [0..16]
             @ map (temp_path ''temp_motor'') [0..100]
             @ map (temp_path ''temp_controller'') [0..100]
             @ map (temp_path ''temp_battery'') [0..100] @ map soc_path [0..100]
             @ map (vi_path ''battery_vi'') [0..100] @ map (vi_path ''motor_vi'') [0..150] @ ?E)"
    by (rule distinct_append_folder[where f = "''speed''", OF _ 2])
       (simp_all add: s del: upto_rec_numeral)
  then show ?thesis unfolding manifest_paths .
qed

lemma manifest_length: "length real2_manifest = 772"
  by (simp add: real2_manifest_def SPEED_MAX_def del: upto_rec_numeral)

lemma sizes_fst: "map fst (sizes new) = map fst new"
  by (simp add: sizes_def comp_def split_beta)

lemma sizes_mem: "(p, im) \<in> set new \<Longrightarrow> (p, img_size im) \<in> set (sizes new)"
  by (force simp: sizes_def)

lemma manifest_sizes:
  assumes "(p, sz) \<in> set real2_manifest"
  shows "(in_folder ''speed'' p \<or> in_folder ''rpm'' p \<longrightarrow> sz = (WIDTH, HEIGHT))
       \<and> (in_folder ''temp_motor'' p \<or> in_folder ''temp_controller'' p
            \<or> in_folder ''temp_battery'' p \<longrightarrow> sz = (80, 220))
       \<and> (in_folder ''soc'' p \<longrightarrow> sz = (240, 80))"
  using assms unfolding real2_manifest_def
  by (auto simp: in_folder_paths in_folder_def[of _ "_ # _"] BASE_DIR_def warning_path_def
      simp del: upto_rec_numeral)

lemma speed_paths_ends:
  "hd (map speed_path [0..SPEED_MAX]) = ''dgus_assets/speed/000.png''"
  "last (map speed_path [0..SPEED_MAX]) = ''dgus_assets/speed/080.png''"
proof -
  have "[0..80] = 0 # [1..80]" by (subst upto_rec1) simp_all
  then show "hd (map speed_path [0..SPEED_MAX]) = ''dgus_assets/speed/000.png''"
    by (simp add: SPEED_MAX_def speed_path_def BASE_DIR_def format_examples
        del: upto_rec_numeral)
  have "[0..80] = [0..79] @ [80]" by (subst upto_rec2) simp_all
  then show "last (map speed_path [0..SPEED_MAX]) = ''dgus_assets/speed/080.png''"
    by (simp add: SPEED_MAX_def speed_path_def BASE_DIR_def format_examples
        del: upto_rec_numeral)
qed

lemma three_digits: "map (\<lambda>v. length (format_0w 3 v)) [0..80] = replicate 81 3"
proof -
  have "map (\<lambda>v. length (format_0w 3 v)) [0..80] = map (\<lambda>v. 3) [0..80]"
    by (rule map_cong) (auto intro!: format_0w_length)
  then show ?thesis by (simp add: map_replicate_const del: upto_rec_numeral)
qed

lemma background_file:
  assumes "create_background en v = (Inr (), v')"
  shows "\<exists>bg. files v' = files v @ [(''dgus_assets/background/dashboard_bg.png'', bg)]
           \<and> img_size bg = (Config_CANVAS_WIDTH, Config_CANVAS_HEIGHT)"
  using assms
  by (auto simp: create_background_def Let_def path_join_def Config_OUTPUT_DIR_def prog_defs
      py_print_def draws_size split: option.splits if_splits)

lemma background_run:
  assumes "\<And>p. save_raises en p = None" "\<And>s. encode_error en s = None"
  shows "create_background en v = (Inr (), snd (create_background en v))"
  by (simp add: create_background_def Let_def prog_defs py_print_encoded assms)


















lemma manifest_first:
  "\<exists>rest. real2_manifest = (''dgus_assets/speed/000.png'', (200, 200)) # rest"
proof -
  have "[0..80] = 0 # [1..80]" by (subst upto_rec1) simp_all
  then show ?thesis
    by (simp add: real2_manifest_def SPEED_MAX_def speed_path_def BASE_DIR_def format_examples
        WIDTH_def HEIGHT_def del: upto_rec_numeral)
qed

lemma first_file:
  assumes "real2 en w = (Inr (), w')"
  shows "\<exists>im rest. files w' = files w @ (''dgus_assets/speed/000.png'', im) # rest"
proof -
  from real2_files[OF assms] obtain new where
    new: "files w' = files w @ new" "sizes new = real2_manifest" by blast
  from manifest_first obtain rest where
    "real2_manifest = (''dgus_assets/speed/000.png'', (200, 200)) # rest" by blast
  with new(2) have s: "sizes new = (''dgus_assets/speed/000.png'', (200, 200)) # rest" by simp
  then obtain y ys where y: "new = y # ys" "fst y = ''dgus_assets/speed/000.png''"
    by (cases new) (auto simp: sizes_def split_beta)
  then show ?thesis using new(1) by (cases y) auto
qed

lemma soc_width_at_29: "soc_fill_width 29 = Inr 57"
proof -
  have "soc_fill_width 29 = Inr \<lfloor>fl (fl (29 / 100) * 200)\<rfloor>"
    using soc_fill_width_eq[of 29] by simp
  also have "fl (fl (29 / 100) * 200) = 8162774324609023 / 2 ^ 47"
    unfolding fl_029 by (rule fl_029_times_200)
  also have "\<lfloor>8162774324609023 / 2 ^ 47 :: rat\<rfloor> = 57" by (simp add: floor_eq_iff)
  finally show ?thesis by simp
qed

lemma colours_distinct: "GREEN \<noteq> YELLOW" "GREEN \<noteq> RED" "YELLOW \<noteq> RED"
  by (simp_all add: GREEN_def YELLOW_def RED_def)

section \<open>Claims\<close>

text \<open>
  C6 (as amended). \<^verbatim>\<open>get_temp_color\<close> validates nothing: for any integer \<open>temp\<close>
  and any nonzero integer \<open>max_temp\<close> whose quotient is below the float overflow
  threshold \<open>2\<^sup>1\<^sup>0\<^sup>2\<^sup>4 - 2\<^sup>9\<^sup>7\<^sup>0\<close> in magnitude it returns one of GREEN, YELLOW, RED
  without raising, whether or not \<open>temp\<close> lies in \<open>[0, max_temp]\<close>; at or above the
  threshold the division raises \<^verbatim>\<open>OverflowError\<close>.
\<close>

theorem get_temp_color_no_validation:
  assumes "max_temp \<noteq> 0"
  shows "(\<bar>rat_of_int temp / of_int max_temp\<bar> < 2 ^ 1024 - 2 ^ 970 \<longrightarrow>
            get_temp_color temp max_temp \<in> {Inr GREEN, Inr YELLOW, Inr RED})
       \<and> (2 ^ 1024 - 2 ^ 970 \<le> \<bar>rat_of_int temp / of_int max_temp\<bar> \<longrightarrow>
            get_temp_color temp max_temp = Inl OverflowError)"
  using py_truediv_finite[OF assms, of temp] py_truediv_overflow[OF assms, of temp]
  by (auto simp: get_temp_color_def)

lemma temp_120_ratio: "fl (6 / 5) = 5404319552844595 / 2 ^ 52"
proof -
  have "fl (6 / 5) = of_int 5404319552844595 * 2 powi (- 52)"
    by (rule fl_near[where e = 0]) (simp_all add: power_int_minus_divide)
  then show ?thesis by (simp add: power_int_minus_divide)
qed

theorem get_temp_color_no_validation_witness:
  "(100::int) \<noteq> 0 \<and> \<bar>rat_of_int 120 / of_int 100\<bar> < 2 ^ 1024 - 2 ^ 970
   \<and> get_temp_color 120 100 \<in> {Inr GREEN, Inr YELLOW, Inr RED}
   \<and> get_temp_color 120 100 = Inr RED
   \<and> (7::int) \<noteq> 0 \<and> 2 ^ 1024 - 2 ^ 970 \<le> \<bar>rat_of_int (7 * 2 ^ 1024) / of_int 7\<bar>
   \<and> get_temp_color (7 * 2 ^ 1024) 7 = Inl OverflowError"
proof -
  have h: "(100::int) \<noteq> 0" by simp
  have b: "\<bar>rat_of_int 120 / of_int 100\<bar> < 2 ^ 1024 - 2 ^ 970" by simp
  have "py_truediv 120 100 = Inr (fl (6 / 5))"
    using py_truediv_small[of 100 120] by simp
  then have r: "get_temp_color 120 100 = Inr RED"
    by (simp add: get_temp_color_def float_lit_def fl_half fl_three_quarters temp_120_ratio)
  have h': "(7::int) \<noteq> 0" by simp
  have b': "2 ^ 1024 - 2 ^ 970 \<le> \<bar>rat_of_int (7 * 2 ^ 1024) / of_int 7\<bar>" by simp
  from get_temp_color_no_validation[OF h, of 120]
    get_temp_color_no_validation[OF h', of "7 * 2 ^ 1024"] b r h b' h'
  show ?thesis by blast
qed

theorem get_temp_color_overflow_counterexample:
  "(1::int) \<noteq> 0 \<and> get_temp_color (2 ^ 1024) 1 = Inl OverflowError"
proof -
  have "py_truediv (2 ^ 1024) 1 = Inl OverflowError"
    by (rule py_truediv_overflow) simp_all
  then show ?thesis by (simp add: get_temp_color_def)
qed

text \<open>
  C8. With \<open>max_temp = 100\<close>, as \<^verbatim>\<open>temp_bar_enhanced\<close> calls it, \<^verbatim>\<open>get_temp_color\<close>
  splits \<open>0..100\<close> at fixed thresholds: GREEN exactly for \<open>t \<le> 49\<close>, YELLOW exactly for
  \<open>50 \<le> t \<le> 74\<close>, RED exactly for \<open>t \<ge> 75\<close>; one colour for each \<open>t\<close>.
\<close>

theorem get_temp_color_thresholds:
  assumes "0 \<le> t" "t \<le> 100"
  shows "(get_temp_color t 100 = Inr GREEN \<longleftrightarrow> t \<le> 49)
       \<and> (get_temp_color t 100 = Inr YELLOW \<longleftrightarrow> 50 \<le> t \<and> t \<le> 74)
       \<and> (get_temp_color t 100 = Inr RED \<longleftrightarrow> 75 \<le> t)
       \<and> get_temp_color t 100 \<in> {Inr GREEN, Inr YELLOW, Inr RED}"
proof -
  let ?r = "fl (rat_of_int t / 100)"
  have d: "py_truediv t 100 = Inr ?r"
    using py_truediv_small[of 100 t] assms by simp
  have c: "get_temp_color t 100 =
      Inr (if ?r < 1 / 2 then GREEN else if ?r < 3 / 4 then YELLOW else RED)"
    by (simp add: get_temp_color_def d float_lit_def fl_half fl_three_quarters)
  have g: "?r < 1 / 2 \<longleftrightarrow> t \<le> 49"
  proof
    assume "?r < 1 / 2"
    show "t \<le> 49"
    proof (rule ccontr)
      assume "\<not> t \<le> 49"
      then have "(1 / 2 :: rat) \<le> of_int t / 100" by simp
      from fl_mono[OF this] have "1 / 2 \<le> ?r" by (simp only: fl_half)
      with \<open>?r < 1 / 2\<close> show False by simp
    qed
  next
    assume "t \<le> 49"
    then have "rat_of_int t / 100 \<le> 49 / 100" by simp
    from fl_mono[OF this] fl_049 show "?r < 1 / 2" by simp
  qed
  have y: "?r < 3 / 4 \<longleftrightarrow> t \<le> 74"
  proof
    assume "?r < 3 / 4"
    show "t \<le> 74"
    proof (rule ccontr)
      assume "\<not> t \<le> 74"
      then have "(3 / 4 :: rat) \<le> of_int t / 100" by simp
      from fl_mono[OF this] have "3 / 4 \<le> ?r" by (simp only: fl_three_quarters)
      with \<open>?r < 3 / 4\<close> show False by simp
    qed
  next
    assume "t \<le> 74"
    then have "rat_of_int t / 100 \<le> 74 / 100" by simp
    from fl_mono[OF this] fl_074 show "?r < 3 / 4" by simp
  qed
  show ?thesis
    unfolding c g y using colours_distinct by auto
qed

theorem get_temp_color_thresholds_witness:
  "(0::int) \<le> 50 \<and> (50::int) \<le> 100 \<and> get_temp_color 50 100 = Inr YELLOW"
  using get_temp_color_thresholds[of 50] by simp

text \<open>
  C4. The speed arc angle \<^verbatim>\<open>int(270 * v / SPEED_MAX)\<close> is \<open>\<lfloor>270 v / 80\<rfloor>\<close> on \<open>0..80\<close>
  (\<open>speed_angle_floor\<close>, \<open>speed_angle_ends\<close>, \<open>speed_angle_mono\<close>), and the SOC fill width
  is \<open>0\<close> at \<open>0\<close>, \<open>200\<close> at \<open>100\<close> and monotone (\<open>soc_fill_width_ends\<close>,
  \<open>soc_fill_width_mono\<close>). The fill width \<^verbatim>\<open>int((s/100) * 200)\<close> is not
  \<open>\<lfloor>200 s / 100\<rfloor>\<close> throughout: \<^verbatim>\<open>s/100\<close> is rounded before the multiplication, and
  at \<open>s = 29\<close> the product falls just below \<open>58\<close>, so the bar is \<open>57\<close> pixels wide.
\<close>

theorem soc_fill_width_29:
  "soc_fill_width 29 = Inr 57 \<and> (200 * 29) div 100 = (58::int)"
  using soc_width_at_29 by simp

text \<open>
  C9. The SOC fill bar stays in its frame. For every \<open>s\<close> in \<open>0..100\<close> the fill width
  is computed without an exception and lies in \<open>[0, 200]\<close>, and the frame that the SOC
  loop draws for \<open>s\<close> consists of the battery outline \<open>(10, 20, 220, 60)\<close>, the
  terminal, the fill rectangle \<open>(15, 25, 15 + fill_width, 55)\<close> exactly when
  \<open>fill_width > 0\<close>, and the percentage text; the fill rectangle lies inside the
  outline.
\<close>

theorem soc_fill_in_frame:
  assumes "0 \<le> s" "s \<le> 100"
  shows "\<exists>w img. soc_fill_width s = Inr w \<and> 0 \<le> w \<and> w \<le> 200
           \<and> soc_image en fs s = Inr img
           \<and> img_ops img =
                 [Rectangle (10, 20, 220, 60) None (Some WHITE) 4,
                  Rectangle (220, 30, 230, 50) (Some WHITE) None 1]
                 @ (if w > 0
                    then [Rectangle (15, 25, 15 + w, 55) (Some (soc_fill_color s)) None 1]
                    else [])
                 @ [Text (120 - box_width (textbbox en (font_med fs) (str s @ ''%'')) div 2, 28)
                      (str s @ ''%'') (if s > 30 then BLACK else WHITE) (font_med fs)]
           \<and> box_inside (15, 25, 15 + w, 55) (10, 20, 220, 60)"
proof -
  let ?x = "fl (fl (rat_of_int s / 100) * 200)"
  from soc_fill_width_eq[OF assms]
  have w: "soc_fill_width s = Inr \<lfloor>?x\<rfloor>" and x: "0 \<le> ?x" "?x \<le> 200" by auto
  have 0: "0 \<le> \<lfloor>?x\<rfloor>" using x(1) by simp
  have 1: "\<lfloor>?x\<rfloor> \<le> 200" using x(2) by (simp add: floor_le_iff)
  have b: "box_inside (15, 25, 15 + \<lfloor>?x\<rfloor>, 55) (10, 20, 220, 60)"
    using 0 1 by (simp add: box_inside_def)
  have i: "soc_image en fs s =
      Inr (draws (Image_new ''RGB'' (240, 80) BG)
        ([Rectangle (10, 20, 220, 60) None (Some WHITE) 4,
          Rectangle (220, 30, 230, 50) (Some WHITE) None 1]
         @ soc_fill s \<lfloor>?x\<rfloor>
         @ [Text (120 - box_width (textbbox en (font_med fs) (str s @ ''%'')) div 2, 28)
              (str s @ ''%'') (if s > 30 then BLACK else WHITE) (font_med fs)]))"
    by (simp add: soc_image_def w bindE_def Let_def)
  show ?thesis
    unfolding i using w 0 1 b by (simp add: draws_def Image_new_def soc_fill_def)
qed

theorem soc_fill_in_frame_witness:
  "(0::int) \<le> 29 \<and> (29::int) \<le> 100 \<and> soc_fill_width 29 = Inr 57
   \<and> (\<exists>img. soc_image env_no_font (load_fonts env_no_font) 29 = Inr img
          \<and> img_ops img =
                [Rectangle (10, 20, 220, 60) None (Some WHITE) 4,
                 Rectangle (220, 30, 230, 50) (Some WHITE) None 1,
                 Rectangle (15, 25, 72, 55) (Some YELLOW) None 1,
                 Text (111, 28) ''29%'' WHITE DefaultFont])
   \<and> box_inside (15, 25, 72, 55) (10, 20, 220, 60)"
proof -
  have f: "font_med (load_fonts env_no_font) = DefaultFont"
    by (simp add: load_fonts_def env_no_font_def bindE_def)
  have t: "str 29 = ''29''"
    unfolding str_def by (simp, subst str_nat.simps, simp add: digit_chars_def str_nat_digit)
  have b: "box_width (textbbox env_no_font DefaultFont ''29%'') = 18"
    by (simp add: env_no_font_def box_width_def)
  from soc_fill_in_frame[of 29 env_no_font "load_fonts env_no_font"] obtain w img where
    w: "soc_fill_width 29 = Inr w"
      "soc_image env_no_font (load_fonts env_no_font) 29 = Inr img"
      "img_ops img =
         [Rectangle (10, 20, 220, 60) None (Some WHITE) 4,
          Rectangle (220, 30, 230, 50) (Some WHITE) None 1]
         @ (if w > 0
            then [Rectangle (15, 25, 15 + w, 55) (Some (soc_fill_color 29)) None 1]
            else [])
         @ [Text (120 - box_width (textbbox env_no_font (font_med (load_fonts env_no_font))
                                     (str 29 @ ''%'')) div 2, 28)
              (str 29 @ ''%'') (if (29::int) > 30 then BLACK else WHITE)
              (font_med (load_fonts env_no_font))]"
      "box_inside (15, 25, 15 + w, 55) (10, 20, 220, 60)"
    by auto
  from w(1) soc_width_at_29 have "w = 57" by simp
  with w soc_width_at_29 show ?thesis by (simp add: soc_fill_color_def f t b)
qed

text \<open>
  C10. \<^verbatim>\<open>indicator_animated\<close> divides by \<open>frames - 1\<close>: with \<open>frames = 1\<close> the first
  frame raises \<^verbatim>\<open>ZeroDivisionError\<close>. With \<open>frames \<ge> 2\<close> it returns \<open>frames\<close> images,
  and the brightness computed for each is an integer in \<open>[76, 255]\<close>, used as the green
  channel of the polygon's fill.
\<close>

theorem indicator_brightness:
  "indicator_animated direction 1 = Inl ZeroDivisionError
   \<and> (2 \<le> frames \<longrightarrow>
        (\<exists>imgs. indicator_animated direction frames = Inr imgs \<and> length imgs = nat frames
           \<and> (\<forall>i<nat frames. \<exists>b.
                 brightness (int i) frames = Inr b \<and> 76 \<le> b \<and> b \<le> 255
                 \<and> img_ops (imgs ! i) =
                     [Polygon (if direction = ''left'' then left_pts else right_pts)
                        (Some [0, b, py_int (fmul (float_of_int b) (float_lit (6 / 10)))]) (Some WHITE) 2])))"
proof -
  have "brightness 0 1 = Inl ZeroDivisionError"
    by (simp add: brightness_def py_truediv_def bindE_def)
  then have "indicator_image direction 1 0 = Inl ZeroDivisionError"
    by (simp add: indicator_image_def bindE_def)
  then have "indicator_animated direction 1 = Inl ZeroDivisionError"
    by (simp add: indicator_animated_def bindE_def)
  moreover have "2 \<le> frames \<longrightarrow>
        (\<exists>imgs. indicator_animated direction frames = Inr imgs \<and> length imgs = nat frames
           \<and> (\<forall>i<nat frames. \<exists>b.
                 brightness (int i) frames = Inr b \<and> 76 \<le> b \<and> b \<le> 255
                 \<and> img_ops (imgs ! i) =
                     [Polygon (if direction = ''left'' then left_pts else right_pts)
                        (Some [0, b, py_int (fmul (float_of_int b) (float_lit (6 / 10)))]) (Some WHITE) 2]))"
    using indicator_animated_frames[of frames direction] by blast
  ultimately show ?thesis by simp
qed

theorem indicator_brightness_witness:
  "(2::int) \<le> 3
   \<and> (\<exists>imgs. indicator_animated ''left'' 3 = Inr imgs \<and> length imgs = nat 3
         \<and> (\<forall>i<nat 3. \<exists>b.
               brightness (int i) 3 = Inr b \<and> 76 \<le> b \<and> b \<le> 255
               \<and> img_ops (imgs ! i) =
                   [Polygon (if ''left'' = ''left'' then left_pts else right_pts)
                      (Some [0, b, py_int (fmul (float_of_int b) (float_lit (6 / 10)))])
                      (Some WHITE) 2]))
   \<and> brightness 0 3 = Inr 76 \<and> brightness 2 3 = Inr 255"
proof -
  have h: "(2::int) \<le> 3" by simp
  from indicator_brightness[of "''left''" 3] h brightness_ends show ?thesis by blast
qed







text \<open>
  C1. After a completed run of \<^verbatim>\<open>real2.py\<close> the run has added 772 files with pairwise
  different paths under \<^verbatim>\<open>dgus_assets/\<close>: in \<^verbatim>\<open>speed/\<close> exactly one frame per integer
  \<open>v\<close> in \<open>0..80\<close>, named by \<open>v\<close> zero-padded to three digits (\<^verbatim>\<open>000.png\<close> to
  \<^verbatim>\<open>080.png\<close>); 17 RPM frames; 101 frames in each temperature folder; 101 SOC frames;
  101 \<^verbatim>\<open>battery_vi\<close> and 151 \<^verbatim>\<open>motor_vi\<close> frames; 5 charging images, 8 indicator
  images and 5 warning icons.
\<close>

theorem real2_output_files:
  assumes "real2 en w = (Inr (), w')"
  shows "\<exists>new. files w' = files w @ new \<and> length new = 772 \<and> distinct (map fst new)
     \<and> filter (in_folder ''speed'') (map fst new)
         = map (\<lambda>v. ''dgus_assets/speed/'' @ format_0w 3 v @ ''.png'') [0..80]
     \<and> map (\<lambda>v. length (format_0w 3 v)) [0..80] = replicate 81 3
     \<and> hd (filter (in_folder ''speed'') (map fst new)) = ''dgus_assets/speed/000.png''
     \<and> last (filter (in_folder ''speed'') (map fst new)) = ''dgus_assets/speed/080.png''
     \<and> length (filter (in_folder ''speed'') (map fst new)) = 81
     \<and> length (filter (in_folder ''rpm'') (map fst new)) = 17
     \<and> length (filter (in_folder ''temp_motor'') (map fst new)) = 101
     \<and> length (filter (in_folder ''temp_controller'') (map fst new)) = 101
     \<and> length (filter (in_folder ''temp_battery'') (map fst new)) = 101
     \<and> length (filter (in_folder ''soc'') (map fst new)) = 101
     \<and> length (filter (in_folder ''battery_vi'') (map fst new)) = 101
     \<and> length (filter (in_folder ''motor_vi'') (map fst new)) = 151
     \<and> length (filter (in_folder ''charging'') (map fst new)) = 5
     \<and> length (filter (in_folder ''indicators'') (map fst new)) = 8
     \<and> length (filter (in_folder ''warnings'') (map fst new)) = 5"
proof -
  from real2_files[OF assms] obtain new where
    new: "files w' = files w @ new" "sizes new = real2_manifest" by blast
  have p: "map fst new = map fst real2_manifest" using new(2) sizes_fst[of new] by simp
  have l: "length new = 772"
    using manifest_length new(2) by (metis length_map sizes_def)
  have sp: "map speed_path [0..SPEED_MAX]
              = map (\<lambda>v. ''dgus_assets/speed/'' @ format_0w 3 v @ ''.png'') [0..80]"
    by (simp add: SPEED_MAX_def speed_path_def BASE_DIR_def del: upto_rec_numeral)
  have "length new = 772 \<and> distinct (map fst new)
     \<and> filter (in_folder ''speed'') (map fst new)
         = map (\<lambda>v. ''dgus_assets/speed/'' @ format_0w 3 v @ ''.png'') [0..80]
     \<and> map (\<lambda>v. length (format_0w 3 v)) [0..80] = replicate 81 3
     \<and> hd (filter (in_folder ''speed'') (map fst new)) = ''dgus_assets/speed/000.png''
     \<and> last (filter (in_folder ''speed'') (map fst new)) = ''dgus_assets/speed/080.png''
     \<and> length (filter (in_folder ''speed'') (map fst new)) = 81
     \<and> length (filter (in_folder ''rpm'') (map fst new)) = 17
     \<and> length (filter (in_folder ''temp_motor'') (map fst new)) = 101
     \<and> length (filter (in_folder ''temp_controller'') (map fst new)) = 101
     \<and> length (filter (in_folder ''temp_battery'') (map fst new)) = 101
     \<and> length (filter (in_folder ''soc'') (map fst new)) = 101
     \<and> length (filter (in_folder ''battery_vi'') (map fst new)) = 101
     \<and> length (filter (in_folder ''motor_vi'') (map fst new)) = 151
     \<and> length (filter (in_folder ''charging'') (map fst new)) = 5
     \<and> length (filter (in_folder ''indicators'') (map fst new)) = 8
     \<and> length (filter (in_folder ''warnings'') (map fst new)) = 5"
    unfolding p filter_speed filter_folders
    using l manifest_distinct three_digits speed_paths_ends sp
    by (simp add: SPEED_MAX_def del: upto_rec_numeral)
  with new(1) show ?thesis by blast
qed

theorem real2_output_files_witness:
  "real2 env_no_font world0 = (Inr (), snd (real2 env_no_font world0))
   \<and> (\<exists>new. files (snd (real2 env_no_font world0)) = files world0 @ new
         \<and> length new = 772 \<and> distinct (map fst new)
         \<and> filter (in_folder ''speed'') (map fst new)
             = map (\<lambda>v. ''dgus_assets/speed/'' @ format_0w 3 v @ ''.png'') [0..80]
         \<and> hd (filter (in_folder ''speed'') (map fst new)) = ''dgus_assets/speed/000.png''
         \<and> last (filter (in_folder ''speed'') (map fst new)) = ''dgus_assets/speed/080.png''
         \<and> length (filter (in_folder ''rpm'') (map fst new)) = 17
         \<and> length (filter (in_folder ''motor_vi'') (map fst new)) = 151
         \<and> length (filter (in_folder ''warnings'') (map fst new)) = 5)"
proof -
  have r: "real2 env_no_font world0 = (Inr (), snd (real2 env_no_font world0))"
    by (rule real2_run) (simp_all add: env_no_font_def)
  from real2_output_files[OF r] r show ?thesis by blast
qed

text \<open>
  C5. Every image a completed run saves has the canvas size of its asset class: the
  speed and RPM frames are \<open>WIDTH \<times> HEIGHT = 200 \<times> 200\<close>, the temperature bars
  \<open>80 \<times> 220\<close>, the SOC frames \<open>240 \<times> 80\<close>, and the background of the structured
  variant \<open>CANVAS_WIDTH \<times> CANVAS_HEIGHT = 1024 \<times> 600\<close>.
\<close>

theorem image_dimensions:
  assumes "real2 en w = (Inr (), w')" and "create_background en' v = (Inr (), v')"
  shows "(\<exists>new. files w' = files w @ new
            \<and> (\<forall>(p, im)\<in>set new.
                  (in_folder ''speed'' p \<or> in_folder ''rpm'' p \<longrightarrow> img_size im = (200, 200))
                \<and> (in_folder ''temp_motor'' p \<or> in_folder ''temp_controller'' p
                     \<or> in_folder ''temp_battery'' p \<longrightarrow> img_size im = (80, 220))
                \<and> (in_folder ''soc'' p \<longrightarrow> img_size im = (240, 80))))
       \<and> (\<exists>bg. files v' = files v @ [(''dgus_assets/background/dashboard_bg.png'', bg)]
              \<and> img_size bg = (1024, 600))"
proof -
  from real2_files[OF assms(1)] obtain new where
    new: "files w' = files w @ new" "sizes new = real2_manifest" by blast
  have "(in_folder ''speed'' p \<or> in_folder ''rpm'' p \<longrightarrow> img_size im = (200, 200))
      \<and> (in_folder ''temp_motor'' p \<or> in_folder ''temp_controller'' p
           \<or> in_folder ''temp_battery'' p \<longrightarrow> img_size im = (80, 220))
      \<and> (in_folder ''soc'' p \<longrightarrow> img_size im = (240, 80))"
    if "(p, im) \<in> set new" for p im
  proof -
    from sizes_mem[OF that] new(2) have "(p, img_size im) \<in> set real2_manifest" by simp
    from manifest_sizes[OF this] show ?thesis by (simp add: WIDTH_def HEIGHT_def)
  qed
  then have 1: "\<exists>new. files w' = files w @ new
            \<and> (\<forall>(p, im)\<in>set new.
                  (in_folder ''speed'' p \<or> in_folder ''rpm'' p \<longrightarrow> img_size im = (200, 200))
                \<and> (in_folder ''temp_motor'' p \<or> in_folder ''temp_controller'' p
                     \<or> in_folder ''temp_battery'' p \<longrightarrow> img_size im = (80, 220))
                \<and> (in_folder ''soc'' p \<longrightarrow> img_size im = (240, 80)))"
    using new(1) by blast
  from background_file[OF assms(2)]
  have 2: "\<exists>bg. files v' = files v @ [(''dgus_assets/background/dashboard_bg.png'', bg)]
              \<and> img_size bg = (1024, 600)"
    by (simp add: Config_CANVAS_WIDTH_def Config_CANVAS_HEIGHT_def)
  from 1 2 show ?thesis by blast
qed

theorem image_dimensions_witness:
  "real2 env_no_font world0 = (Inr (), snd (real2 env_no_font world0))
   \<and> create_background env_no_font world0 = (Inr (), snd (create_background env_no_font world0))
   \<and> (\<exists>im. (''dgus_assets/speed/000.png'', im) \<in> set (files (snd (real2 env_no_font world0)))
           \<and> in_folder ''speed'' ''dgus_assets/speed/000.png'' \<and> img_size im = (200, 200))
   \<and> (\<exists>bg. files (snd (create_background env_no_font world0))
              = files world0 @ [(''dgus_assets/background/dashboard_bg.png'', bg)]
           \<and> img_size bg = (1024, 600))"
proof -
  let ?w = "snd (real2 env_no_font world0)"
  have r: "real2 env_no_font world0 = (Inr (), ?w)"
    by (rule real2_run) (simp_all add: env_no_font_def)
  have b: "create_background env_no_font world0
             = (Inr (), snd (create_background env_no_font world0))"
    by (rule background_run) (simp_all add: env_no_font_def)
  have f: "in_folder ''speed'' ''dgus_assets/speed/000.png''"
    by (simp add: in_folder_def BASE_DIR_def)
  from image_dimensions[OF r b] obtain new where
    new: "files ?w = files world0 @ new"
      "\<forall>(p, im)\<in>set new. (in_folder ''speed'' p \<or> in_folder ''rpm'' p \<longrightarrow> img_size im = (200, 200))"
    and bg: "\<exists>bg. files (snd (create_background env_no_font world0))
              = files world0 @ [(''dgus_assets/background/dashboard_bg.png'', bg)]
           \<and> img_size bg = (1024, 600)"
    by blast
  from first_file[OF r] obtain im rest where
    i: "files ?w = files world0 @ (''dgus_assets/speed/000.png'', im) # rest" by blast
  with new(1) have "new = (''dgus_assets/speed/000.png'', im) # rest" by simp
  then have "(''dgus_assets/speed/000.png'', im) \<in> set new" by simp
  with new(2) f have "img_size im = (200, 200)" by blast
  moreover have "(''dgus_assets/speed/000.png'', im) \<in> set (files ?w)" using i by simp
  ultimately show ?thesis using r b f bg by blast
qed



end
